theory Spec2Isabelle
  imports Main "HOL-Library.Word" "HOL-Library.Signed_Division"
begin

unbundle bit_operations_syntax

section \<open>Machine types and constants shared by spacechk and maxspace\<close>

text \<open>
  The repository holds two Windows utilities. \<^emph>\<open>spacechk\<close> fills a volume with
  10 MiB segment files and reads them back; \<^emph>\<open>maxspace\<close> allocates one large file
  and probes it every 10 MiB. Both are embedded here function by function. Fixed-width
  C integers are words: \<open>uint64_t\<close> and \<open>int64_t\<close> share the 64-bit carrier and
  differ in how comparisons and divisions read it (\<open>unat\<close> against \<open>sint\<close>).
  The operating system is an explicit environment: a record saying which calls fail,
  next to the directory contents, so that every early return of the source is a
  branch of the model. What a program prints on a failure, and the size it prints when a
  pass ends, is returned as a list of events. Progress lines, which depend on the clock
  only, the announcement each pass prints before its loop (the number of files or blocks
  and the unit size) and the messages of closing a handle are not modelled: they change
  no result and carry no offset.
\<close>

type_synonym uint64_t = "64 word"
type_synonym int64_t = "64 word"
type_synonym DWORD = "32 word"
type_synonym buffer = "nat \<Rightarrow> 8 word"

definition KiB :: uint64_t where "KiB = 1024"
definition MiB :: uint64_t where "MiB = KiB * 1024"
definition GiB :: uint64_t where "GiB = MiB * 1024"
definition TiB :: uint64_t where "TiB = GiB * 1024"

definition sizeArray :: "uint64_t list" where "sizeArray = [TiB, GiB, MiB, KiB]"
definition sizeNames :: "string list" where "sizeNames = [''TiB'', ''GiB'', ''MiB'', ''KiB'']"
definition byteName :: string where "byteName = ''bytes''"
definition numSizes :: nat where "numSizes = length sizeArray"

text \<open>spacechk: segment size and file prefix; maxspace: stride and file name.\<close>

definition filePrefix :: string where "filePrefix = ''sp''"
definition fileIOSize :: uint64_t where "fileIOSize = 10 * MiB"
definition verifyFilename :: string where "verifyFilename = ''verifysp.bin''"
definition verifySize :: uint64_t where "verifySize = 10 * MiB"

text \<open>The result of \<open>WriteFile\<close> or \<open>ReadFile\<close>: the call returns 0, or it
  succeeds and reports a byte count.\<close>

datatype transfer = Failed | Transferred DWORD

section \<open>HumanReadable\<close>

text \<open>spacechk compares and divides unsigned.\<close>

function HumanReadable_from :: "nat \<Rightarrow> uint64_t \<Rightarrow> string \<times> uint64_t" where
  "HumanReadable_from i sizeInBytes =
     (if i < numSizes then
        (if sizeInBytes \<ge> sizeArray ! i
         then (sizeNames ! i, sizeInBytes div sizeArray ! i)
         else HumanReadable_from (i + 1) sizeInBytes)
      else (byteName, sizeInBytes))"
  by pat_completeness auto
termination
  by (relation "measure (\<lambda>(i, s). numSizes - i)") auto

definition HumanReadable :: "uint64_t \<Rightarrow> string \<times> uint64_t" where
  "HumanReadable sizeInBytes = HumanReadable_from 0 sizeInBytes"

text \<open>maxspace declares the same table and function over \<open>int64_t\<close>: the comparison
  is signed and the division truncates towards zero.\<close>

definition ms_sizeArray :: "int64_t list" where "ms_sizeArray = [TiB, GiB, MiB, KiB]"
definition sizeIsBytes :: string where "sizeIsBytes = ''bytes''"

function ms_HumanReadable_from :: "nat \<Rightarrow> int64_t \<Rightarrow> string \<times> int64_t" where
  "ms_HumanReadable_from i sizeInBytes =
     (if i < numSizes then
        (if sint sizeInBytes \<ge> sint (ms_sizeArray ! i)
         then (sizeNames ! i, word_of_int (sint sizeInBytes sdiv sint (ms_sizeArray ! i)))
         else ms_HumanReadable_from (i + 1) sizeInBytes)
      else (sizeIsBytes, sizeInBytes))"
  by pat_completeness auto
termination
  by (relation "measure (\<lambda>(i, s). numSizes - i)") auto

definition ms_HumanReadable :: "int64_t \<Rightarrow> string \<times> int64_t" where
  "ms_HumanReadable sizeInBytes = ms_HumanReadable_from 0 sizeInBytes"

section \<open>Device statistics in the two main functions\<close>

text \<open>Both programs widen the sector size to 64 bits and multiply it twice in place.
  maxspace keeps the result in an \<open>int64_t\<close> and rejects a non-positive value.\<close>

definition main_freeSpace :: "DWORD \<Rightarrow> DWORD \<Rightarrow> DWORD \<Rightarrow> uint64_t" where
  "main_freeSpace bytesPerSector sectorsPerCluster freeClusters =
     (let s0 = ucast bytesPerSector;
          s1 = s0 * ucast sectorsPerCluster;
          s2 = s1 * ucast freeClusters
      in s2)"

definition main_totalSpace :: "DWORD \<Rightarrow> DWORD \<Rightarrow> DWORD \<Rightarrow> uint64_t" where
  "main_totalSpace bytesPerSector sectorsPerCluster totalClusters =
     (let s0 = ucast bytesPerSector;
          s1 = s0 * ucast sectorsPerCluster;
          s2 = s1 * ucast totalClusters
      in s2)"

definition ms_main_freeSpace :: "DWORD \<Rightarrow> DWORD \<Rightarrow> DWORD \<Rightarrow> int64_t" where
  "ms_main_freeSpace bytesPerSector sectorsPerCluster freeClusters =
     (let s0 = ucast bytesPerSector;
          s1 = s0 * ucast sectorsPerCluster;
          s2 = s1 * ucast freeClusters
      in s2)"

definition ms_main_totalSpace :: "DWORD \<Rightarrow> DWORD \<Rightarrow> DWORD \<Rightarrow> int64_t" where
  "ms_main_totalSpace bytesPerSector sectorsPerCluster totalClusters =
     (let s0 = ucast bytesPerSector;
          s1 = s0 * ucast sectorsPerCluster;
          s2 = s1 * ucast totalClusters
      in s2)"

definition ms_sanity_check :: "int64_t \<Rightarrow> int64_t \<Rightarrow> bool" where
  "ms_sanity_check freeSp totalSp \<longleftrightarrow> \<not> (sint freeSp \<le> 0 \<or> sint totalSp \<le> 0)"

section \<open>Buffers and the stamped pattern\<close>

text \<open>A buffer is byte-addressed memory. The programs store the marker through a
  \<open>uint64_t*\<close>, little-endian on the target, at \<open>o * dataOffsets\<close> for
  \<open>o = 0, 1, 2, 3\<close>.\<close>

definition memset :: "buffer \<Rightarrow> 8 word \<Rightarrow> nat \<Rightarrow> buffer" where
  "memset buf c n = (\<lambda>a. if a < n then c else buf a)"

definition store64 :: "buffer \<Rightarrow> nat \<Rightarrow> uint64_t \<Rightarrow> buffer" where
  "store64 buf p v = (\<lambda>a. if p \<le> a \<and> a < p + 8 then ucast (drop_bit (8 * (a - p)) v) else buf a)"

definition load64 :: "buffer \<Rightarrow> nat \<Rightarrow> uint64_t" where
  "load64 buf p =
     ucast (buf p) OR push_bit 8 (ucast (buf (p + 1))) OR push_bit 16 (ucast (buf (p + 2)))
     OR push_bit 24 (ucast (buf (p + 3))) OR push_bit 32 (ucast (buf (p + 4)))
     OR push_bit 40 (ucast (buf (p + 5))) OR push_bit 48 (ucast (buf (p + 6)))
     OR push_bit 56 (ucast (buf (p + 7)))"

definition zero_buffer :: buffer where
  "zero_buffer = (\<lambda>_. 0)"

definition stamp :: "buffer \<Rightarrow> nat \<Rightarrow> uint64_t \<Rightarrow> buffer" where
  "stamp buf dataOffsets v = fold (\<lambda>k b. store64 b (k * dataOffsets) v) [0, 1, 2, 3] buf"

section \<open>File names of spacechk\<close>

text \<open>\<open>%06llx\<close> prints at least six lower-case hexadecimal digits. \<open>wcschr\<close>
  returns the suffix that starts at the first occurrence. \<open>swscanf_s\<close> with
  \<open>%llx\<close> reads the leading hexadecimal digits and stores nothing when there are
  none, so the target keeps the indeterminate value it had; that value is the first
  argument. The white space, the sign and the \<open>0x\<close> prefix that the C library also
  accepts before the digits are not modelled; no name that a theorem below evaluates has
  them, and a value beyond 64 bits wraps here.\<close>

definition hex_digit :: "nat \<Rightarrow> char" where
  "hex_digit d = ''0123456789abcdef'' ! d"

fun hex_of_nat :: "nat \<Rightarrow> string" where
  "hex_of_nat n = (if n < 16 then [hex_digit n] else hex_of_nat (n div 16) @ [hex_digit (n mod 16)])"

declare hex_of_nat.simps [simp del]

definition fmt_06llx :: "uint64_t \<Rightarrow> string" where
  "fmt_06llx v = (let s = hex_of_nat (unat v) in replicate (6 - length s) CHR ''0'' @ s)"

fun wcschr :: "string \<Rightarrow> char \<Rightarrow> string option" where
  "wcschr [] c = None"
| "wcschr (x # xs) c = (if x = c then Some (x # xs) else wcschr xs c)"

definition hex_value :: "char \<Rightarrow> nat option" where
  "hex_value c =
     (let n = of_char c :: nat in
      if 48 \<le> n \<and> n \<le> 57 then Some (n - 48)
      else if 97 \<le> n \<and> n \<le> 102 then Some (n - 87)
      else if 65 \<le> n \<and> n \<le> 70 then Some (n - 55)
      else None)"

fun scan_hex :: "uint64_t \<Rightarrow> string \<Rightarrow> uint64_t" where
  "scan_hex acc [] = acc"
| "scan_hex acc (c # cs) = (case hex_value c of None \<Rightarrow> acc | Some d \<Rightarrow> scan_hex (acc * 16 + of_nat d) cs)"

definition swscanf_llx :: "uint64_t \<Rightarrow> string \<Rightarrow> uint64_t" where
  "swscanf_llx seqNum s =
     (case s of [] \<Rightarrow> seqNum
      | c # cs \<Rightarrow> (case hex_value c of None \<Rightarrow> seqNum | Some d \<Rightarrow> scan_hex 0 s))"

section \<open>The volume as spacechk sees it\<close>

text \<open>A directory is a list of entries in enumeration order, keyed by full path.
  The fault fields say which calls the device refuses: \<open>None\<close> in
  \<open>write_fault\<close> or \<open>read_fault\<close> is a complete transfer.
  Two values the source leaves indeterminate are parameters of the functions that meet
  them: \<open>garbage\<close> is what \<open>seqNum\<close> holds before \<open>swscanf_s\<close>, and
  \<open>heap\<close> is the content of a block as \<open>_aligned_malloc\<close> returns it. The
  sector size only aligns the block.\<close>

record file_entry =
  fullName :: string
  isDirectory :: bool
  fileLength :: nat
  fileData :: buffer

record disk =
  entries :: "file_entry list"
  malloc_fails :: bool
  create_fails :: "string \<Rightarrow> bool"
  write_fault :: "string \<Rightarrow> transfer option"
  open_fails :: "string \<Rightarrow> bool"
  read_fault :: "string \<Rightarrow> transfer option"

datatype sc_error =
    CouldNotGetBuffer
  | CannotCreate string
  | CannotWrite string
  | ShortWrite DWORD
  | UnableToFind
  | CannotOpen string
  | CannotRead string
  | ShortRead DWORD

datatype sc_event =
    CreateFile_CREATE_ALWAYS string
  | WriteFile string
  | CreateFile_OPEN_EXISTING string
  | ReadFile string
  | PrintError sc_error
  | wprintf_NoSequenceNumber string
  | printf_BadData uint64_t nat uint64_t
  | OutputSize string uint64_t

definition put_file :: "file_entry \<Rightarrow> file_entry list \<Rightarrow> file_entry list" where
  "put_file f fs =
     (if fullName f \<in> fullName ` set fs
      then map (\<lambda>g. if fullName g = fullName f then f else g) fs
      else fs @ [f])"

definition get_file :: "file_entry list \<Rightarrow> string \<Rightarrow> file_entry option" where
  "get_file fs name = find (\<lambda>g. fullName g = name) fs"

definition os_CreateFile_always :: "disk \<Rightarrow> string \<Rightarrow> disk option" where
  "os_CreateFile_always d name =
     (if create_fails d name then None
      else Some (d\<lparr>entries := put_file \<lparr>fullName = name, isDirectory = False, fileLength = 0, fileData = (\<lambda>_. 0)\<rparr> (entries d)\<rparr>))"

definition os_WriteFile :: "disk \<Rightarrow> string \<Rightarrow> buffer \<Rightarrow> DWORD \<Rightarrow> disk \<times> transfer" where
  "os_WriteFile d name buf n =
     (case (case write_fault d name of None \<Rightarrow> Transferred n | Some t \<Rightarrow> t) of
        Failed \<Rightarrow> (d, Failed)
      | Transferred written \<Rightarrow>
          (d\<lparr>entries := put_file \<lparr>fullName = name, isDirectory = False, fileLength = unat written, fileData = buf\<rparr> (entries d)\<rparr>,
           Transferred written))"

definition os_ReadFile :: "disk \<Rightarrow> string \<Rightarrow> buffer \<Rightarrow> DWORD \<Rightarrow> buffer \<times> transfer" where
  "os_ReadFile d name buf n =
     (case get_file (entries d) name of
        None \<Rightarrow> (buf, Failed)
      | Some f \<Rightarrow>
         (case (case read_fault d name of None \<Rightarrow> Transferred (of_nat (min (fileLength f) (unat n))) | Some t \<Rightarrow> t) of
            Failed \<Rightarrow> (buf, Failed)
          | Transferred bytesRead \<Rightarrow> ((\<lambda>a. if a < unat bytesRead then fileData f a else buf a), Transferred bytesRead)))"

definition matches_search :: "string \<Rightarrow> string \<Rightarrow> bool" where
  "matches_search pathName name =
     (let n = length pathName; rest = drop n name in
      take n name = pathName \<and> take (length filePrefix) rest = filePrefix \<and>
      length filePrefix + 4 \<le> length rest \<and> drop (length rest - 4) rest = ''.bin'' \<and>
      CHR 0x5C \<notin> set rest)"

text \<open>\<open>FindFirstFile\<close> and \<open>FindNextFile\<close> on \<open>sp*.bin\<close> in the directory
  \<open>pathName\<close>: the entries whose name starts with the prefix and ends in
  \<open>.bin\<close> (compared as written), in directory order, each with its name without the
  path and its directory flag.\<close>

definition FindFiles :: "disk \<Rightarrow> string \<Rightarrow> (string \<times> bool) list" where
  "FindFiles d pathName =
     map (\<lambda>f. (drop (length pathName) (fullName f), isDirectory f))
       (filter (\<lambda>f. matches_search pathName (fullName f)) (entries d))"

fun FindPriorFiles_loop :: "uint64_t \<Rightarrow> uint64_t \<Rightarrow> (string \<times> bool) list \<Rightarrow> uint64_t" where
  "FindPriorFiles_loop garbage maxSeq [] = maxSeq"
| "FindPriorFiles_loop garbage maxSeq ((cFileName, dir) # rest) =
     (if \<not> dir then
        (case wcschr cFileName CHR ''-'' of
           None \<Rightarrow> maxSeq
         | Some seqPtr \<Rightarrow>
             (let seqNum = swscanf_llx garbage (tl seqPtr)
              in FindPriorFiles_loop garbage (max seqNum maxSeq) rest))
      else FindPriorFiles_loop garbage maxSeq rest)"

definition FindPriorFiles :: "disk \<Rightarrow> uint64_t \<Rightarrow> string \<Rightarrow> uint64_t" where
  "FindPriorFiles d garbage pathName =
     (case FindFiles d pathName of
        [] \<Rightarrow> 0
      | found \<Rightarrow> FindPriorFiles_loop garbage 0 found)"

text \<open>One iteration of the loop of CreateFiles either returns from the function
  (\<open>Inl\<close>) or goes on with the next file (\<open>Inr\<close>). The loop counts a
  \<open>uint64_t\<close> up to \<open>totalFiles\<close>, which terminates. The value of
  FindPriorFiles is bound to \<open>startFile\<close> and, as in the source, not used.\<close>

definition CreateFiles_body ::
  "disk \<Rightarrow> string \<Rightarrow> uint64_t \<Rightarrow> buffer \<Rightarrow> (bool \<times> disk \<times> sc_event list) + (disk \<times> buffer \<times> sc_event list)" where
  "CreateFiles_body d pathName i writeBuffer =
     (let writeName = pathName @ filePrefix @ fmt_06llx i @ ''.bin'' in
      case os_CreateFile_always d writeName of
        None \<Rightarrow> Inl (False, d, [CreateFile_CREATE_ALWAYS writeName, PrintError (CannotCreate writeName)])
      | Some d1 \<Rightarrow>
          (let dataOffsets = fileIOSize div 4;
               writeBuffer1 = stamp writeBuffer (unat dataOffsets) (i + 1)
           in case os_WriteFile d1 writeName writeBuffer1 (ucast fileIOSize) of
                (d2, Failed) \<Rightarrow>
                  Inl (False, d2, [CreateFile_CREATE_ALWAYS writeName, WriteFile writeName,
                                   PrintError (CannotWrite writeName), OutputSize ''Reached'' (i * fileIOSize)])
              | (d2, Transferred written) \<Rightarrow>
                  if ucast written \<noteq> fileIOSize
                  then Inl (False, d2, [CreateFile_CREATE_ALWAYS writeName, WriteFile writeName,
                                        PrintError (ShortWrite written)])
                  else Inr (d2, writeBuffer1, [CreateFile_CREATE_ALWAYS writeName, WriteFile writeName])))"

function CreateFiles_loop ::
  "string \<Rightarrow> uint64_t \<Rightarrow> uint64_t \<Rightarrow> disk \<Rightarrow> buffer \<Rightarrow> bool \<times> disk \<times> sc_event list" where
  "CreateFiles_loop pathName totalFiles i d writeBuffer =
     (if i < totalFiles then
        (case CreateFiles_body d pathName i writeBuffer of
           Inl stopped \<Rightarrow> stopped
         | Inr (d1, writeBuffer1, evs) \<Rightarrow>
             (case CreateFiles_loop pathName totalFiles (i + 1) d1 writeBuffer1 of
                (ok, d2, evs1) \<Rightarrow> (ok, d2, evs @ evs1)))
      else (True, d, [OutputSize ''taking'' (totalFiles * fileIOSize)]))"
  by pat_completeness auto
termination
proof (relation "measure (\<lambda>(pathName, totalFiles, i, d, b). unat totalFiles - unat i)", goal_cases)
  case 1
  show ?case by simp
next
  case (2 pathName totalFiles i d writeBuffer)
  from \<open>i < totalFiles\<close> have "1 + i \<noteq> 0"
    by (metis add.commute max_word_wrap word_order.extremum_strict)
  then have "unat (i + 1) = Suc (unat i)" by (simp add: unatSuc add.commute)
  then show ?case using \<open>i < totalFiles\<close> by (simp add: word_less_nat_alt)
qed

declare CreateFiles_loop.simps [simp del]

definition CreateFiles ::
  "disk \<Rightarrow> uint64_t \<Rightarrow> buffer \<Rightarrow> string \<Rightarrow> DWORD \<Rightarrow> uint64_t \<Rightarrow> bool \<times> disk \<times> sc_event list" where
  "CreateFiles d garbage heap pathName bytesPerSector totalSpace =
     (let totalFiles = totalSpace div fileIOSize in
      if malloc_fails d then (False, d, [PrintError CouldNotGetBuffer])
      else
        (let writeBuffer = memset heap 0 (unat fileIOSize);
             startFile = FindPriorFiles d garbage pathName
         in CreateFiles_loop pathName totalFiles 0 d writeBuffer))"


text \<open>The check of the four markers of one file. With \<open>keepGoing\<close> every
  differing marker is printed and the check goes on; without it the first one returns
  false.\<close>

fun VerifyFiles_check :: "buffer \<Rightarrow> uint64_t \<Rightarrow> bool \<Rightarrow> nat list \<Rightarrow> bool \<times> sc_event list" where
  "VerifyFiles_check verifyBuffer seqNum keepGoing [] = (True, [])"
| "VerifyFiles_check verifyBuffer seqNum keepGoing (k # ks) =
     (let dataOffsets = fileIOSize div 4;
          dataPtr = load64 verifyBuffer (k * unat dataOffsets)
      in if dataPtr \<noteq> seqNum + 1 then
           (let evs = [printf_BadData (seqNum + 1) (k * unat dataOffsets) dataPtr,
                       OutputSize ''Reached'' ((seqNum + 1) * fileIOSize)]
            in if \<not> keepGoing then (False, evs)
               else (case VerifyFiles_check verifyBuffer seqNum keepGoing ks of
                       (continue, evs1) \<Rightarrow> (continue, evs @ evs1)))
         else VerifyFiles_check verifyBuffer seqNum keepGoing ks)"

definition VerifyFiles_body ::
  "disk \<Rightarrow> uint64_t \<Rightarrow> string \<Rightarrow> bool \<Rightarrow> buffer \<Rightarrow> string \<Rightarrow> bool \<times> sc_event list" where
  "VerifyFiles_body d garbage pathName keepGoing verifyBuffer cFileName =
     (let verifyName = pathName @ cFileName in
      if open_fails d verifyName
      then (False, [CreateFile_OPEN_EXISTING verifyName, PrintError (CannotOpen verifyName)])
      else
        (case os_ReadFile d verifyName verifyBuffer (ucast fileIOSize) of
           (buf1, Failed) \<Rightarrow>
             (False, [CreateFile_OPEN_EXISTING verifyName, ReadFile verifyName,
                      PrintError (CannotRead verifyName)])
         | (buf1, Transferred bytesRead) \<Rightarrow>
             if ucast bytesRead \<noteq> fileIOSize
             then (False, [CreateFile_OPEN_EXISTING verifyName, ReadFile verifyName,
                           PrintError (ShortRead bytesRead)])
             else
               (case wcschr verifyName CHR ''-'' of
                  None \<Rightarrow>
                    (False, [CreateFile_OPEN_EXISTING verifyName, ReadFile verifyName,
                             wprintf_NoSequenceNumber verifyName])
                | Some seqPtr \<Rightarrow>
                    (let seqNum = swscanf_llx garbage (tl seqPtr) in
                     case VerifyFiles_check buf1 seqNum keepGoing [0, 1, 2, 3] of
                       (continue, evs) \<Rightarrow>
                         (continue,
                          [CreateFile_OPEN_EXISTING verifyName, ReadFile verifyName] @ evs)))))"

text \<open>The loop is the \<open>do \<dots> while (FindNextFile \<dots>)\<close> over the entries found.
  The source reuses one buffer for every file. A file is checked only after a read of
  \<open>fileIOSize\<close> bytes, which overwrites every byte the check looks at, so each
  iteration starts here from the buffer as allocated.\<close>

fun VerifyFiles_loop ::
  "disk \<Rightarrow> uint64_t \<Rightarrow> string \<Rightarrow> bool \<Rightarrow> buffer \<Rightarrow> (string \<times> bool) list \<Rightarrow> bool \<times> sc_event list" where
  "VerifyFiles_loop d garbage pathName keepGoing verifyBuffer [] = (True, [])"
| "VerifyFiles_loop d garbage pathName keepGoing verifyBuffer ((cFileName, dir) # rest) =
     (if \<not> dir then
        (case VerifyFiles_body d garbage pathName keepGoing verifyBuffer cFileName of
           (False, evs) \<Rightarrow> (False, evs)
         | (True, evs) \<Rightarrow>
             (case VerifyFiles_loop d garbage pathName keepGoing verifyBuffer rest of
                (ok, evs1) \<Rightarrow> (ok, evs @ evs1)))
      else VerifyFiles_loop d garbage pathName keepGoing verifyBuffer rest)"

definition VerifyFiles ::
  "disk \<Rightarrow> uint64_t \<Rightarrow> buffer \<Rightarrow> string \<Rightarrow> DWORD \<Rightarrow> bool \<Rightarrow> bool \<times> sc_event list" where
  "VerifyFiles d garbage heap pathName bytesPerSector keepGoing =
     (case FindFiles d pathName of
        [] \<Rightarrow> (False, [PrintError UnableToFind])
      | found \<Rightarrow>
          if malloc_fails d then (False, [PrintError CouldNotGetBuffer])
          else
            (case VerifyFiles_loop d garbage pathName keepGoing heap found of
               (False, evs) \<Rightarrow> (False, evs)
             | (True, evs) \<Rightarrow>
                 (True, evs @ [OutputSize ''taking''
                                 (of_nat (length (filter (\<lambda>(cFileName, dir). \<not> dir) found)) * fileIOSize)])))"

definition honest_disk :: "file_entry list \<Rightarrow> disk" where
  "honest_disk fs = \<lparr>entries = fs, malloc_fails = False, create_fails = (\<lambda>_. False),
     write_fault = (\<lambda>_. None), open_fails = (\<lambda>_. False), read_fault = (\<lambda>_. None)\<rparr>"

definition drive_E :: string where "drive_E = [CHR ''E'', CHR '':'', CHR 0x5C]"

definition created :: "sc_event list \<Rightarrow> string list" where
  "created evs = concat (map (\<lambda>e. case e of CreateFile_CREATE_ALWAYS n \<Rightarrow> [n] | _ \<Rightarrow> []) evs)"

definition reached :: "sc_event list \<Rightarrow> uint64_t list" where
  "reached evs = concat (map (\<lambda>e. case e of OutputSize l v \<Rightarrow> (if l = ''Reached'' then [v] else []) | _ \<Rightarrow> []) evs)"

section \<open>maxspace: fast allocation\<close>

text \<open>Each field says whether the named call succeeds; the trace lists the calls made.\<close>

record winapi =
  OpenProcessToken_ok :: bool
  AdjustTokenPrivileges_ok :: bool
  CloseHandle_token_ok :: bool
  CreateFile_ok :: bool
  SetFilePointerEx_ok :: bool
  SetEndOfFile_ok :: bool
  SetFileValidData_ok :: bool
  CloseHandle_file_ok :: bool

datatype api_call =
    OpenProcessToken
  | LookupPrivilegeValue
  | AdjustTokenPrivileges
  | CloseHandle_token
  | CreateFile string
  | SetFilePointerEx int64_t
  | SetEndOfFile
  | SetFileValidData int64_t
  | CloseHandle_file

definition AddPrivelege :: "winapi \<Rightarrow> bool \<times> api_call list" where
  "AddPrivelege api =
     (if \<not> OpenProcessToken_ok api then (False, [OpenProcessToken])
      else if \<not> AdjustTokenPrivileges_ok api
      then (False, [OpenProcessToken, LookupPrivilegeValue, AdjustTokenPrivileges, CloseHandle_token])
      else if \<not> CloseHandle_token_ok api
      then (False, [OpenProcessToken, LookupPrivilegeValue, AdjustTokenPrivileges, CloseHandle_token])
      else (True, [OpenProcessToken, LookupPrivilegeValue, AdjustTokenPrivileges, CloseHandle_token]))"

definition CreateVerifyFile :: "winapi \<Rightarrow> string \<Rightarrow> DWORD \<Rightarrow> int64_t \<Rightarrow> bool \<times> api_call list" where
  "CreateVerifyFile api pathName bytesPerSector totalSpace =
     (case AddPrivelege api of
        (False, tr) \<Rightarrow> (False, tr)
      | (True, tr) \<Rightarrow>
          (let writeName = pathName @ verifyFilename in
           if \<not> CreateFile_ok api then (False, tr @ [CreateFile writeName])
           else if \<not> SetFilePointerEx_ok api
           then (False, tr @ [CreateFile writeName, SetFilePointerEx totalSpace, CloseHandle_file])
           else if \<not> SetEndOfFile_ok api
           then (False, tr @ [CreateFile writeName, SetFilePointerEx totalSpace, SetEndOfFile, CloseHandle_file])
           else if \<not> SetFileValidData_ok api
           then (False, tr @ [CreateFile writeName, SetFilePointerEx totalSpace, SetEndOfFile,
                              SetFileValidData totalSpace, CloseHandle_file])
           else if \<not> CloseHandle_file_ok api
           then (False, tr @ [CreateFile writeName, SetFilePointerEx totalSpace, SetEndOfFile,
                              SetFileValidData totalSpace, CloseHandle_file])
           else (True, tr @ [CreateFile writeName, SetFilePointerEx totalSpace, SetEndOfFile,
                             SetFileValidData totalSpace, CloseHandle_file])))"

section \<open>maxspace: the probe pass\<close>

text \<open>The device answers each call at a file offset. \<open>read_result\<close> also receives
  the sector just written there and returns the bytes it delivers. The loop variable is a
  signed 64-bit offset that wraps, so the loop carries fuel and \<open>None\<close> means that
  the fuel ran out. The source tests the name, not the handle, after opening the file, so
  a failed open shows as a failing \<open>GetFileSizeEx\<close>; \<open>cached\<close> only selects
  the flags of that open. Every iteration clears the sector before stamping it, so each
  starts here from the block as allocated.\<close>

record probe_device =
  GetFileSizeEx :: "int64_t option"
  malloc_ok :: bool
  seek_ok :: "int64_t \<Rightarrow> bool"
  write_result :: "int64_t \<Rightarrow> transfer"
  seek_back_ok :: "int64_t \<Rightarrow> bool"
  read_result :: "int64_t \<Rightarrow> buffer \<Rightarrow> transfer \<times> buffer"

datatype ms_error =
    CouldNotGetFileSize
  | NoVerifyBuffer
  | UnableToMovePointer
  | CouldNotWrite
  | WroteBytes DWORD DWORD int64_t
  | MoveReadPointer
  | UnableToRead
  | ReadBytes DWORD DWORD int64_t
  | DataIncorrect uint64_t uint64_t int64_t

datatype ms_event =
    Seek int64_t
  | Write int64_t
  | SeekBack int64_t
  | Read int64_t
  | Report ms_error
  | ms_OutputSize string uint64_t

fun VerifyTheFile_check :: "buffer \<Rightarrow> nat \<Rightarrow> uint64_t \<Rightarrow> nat list \<Rightarrow> uint64_t option" where
  "VerifyTheFile_check verifyBuffer dataOffsets count [] = None"
| "VerifyTheFile_check verifyBuffer dataOffsets count (k # ks) =
     (let dataPtr = load64 verifyBuffer (k * dataOffsets)
      in if dataPtr \<noteq> count + 1 then Some dataPtr
         else VerifyTheFile_check verifyBuffer dataOffsets count ks)"

declare VerifyTheFile_check.simps [simp del]

definition VerifyTheFile_body ::
  "probe_device \<Rightarrow> buffer \<Rightarrow> DWORD \<Rightarrow> bool \<Rightarrow> int64_t \<Rightarrow> uint64_t \<Rightarrow> bool \<times> ms_event list" where
  "VerifyTheFile_body dev heap bytesPerSector noReads i count =
     (if \<not> seek_ok dev i
      then (False, [Seek i, Report UnableToMovePointer, ms_OutputSize ''Reached'' i])
      else
        (let dataOffsets = unat (bytesPerSector div 4);
             verifyBuffer = stamp (memset heap 0 (unat bytesPerSector)) dataOffsets (count + 1)
         in case write_result dev i of
              Failed \<Rightarrow> (False, [Seek i, Write i, Report CouldNotWrite, ms_OutputSize ''Reached'' i])
            | Transferred written \<Rightarrow>
                if written \<noteq> bytesPerSector
                then (False, [Seek i, Write i, Report (WroteBytes written bytesPerSector i), ms_OutputSize '' '' i])
                else if noReads then (True, [Seek i, Write i])
                else if \<not> seek_back_ok dev i
                then (False, [Seek i, Write i, SeekBack i, Report MoveReadPointer, ms_OutputSize ''Reached'' i])
                else
                  (case read_result dev i verifyBuffer of
                     (Failed, data) \<Rightarrow>
                       (False, [Seek i, Write i, SeekBack i, Read i, Report UnableToRead,
                                ms_OutputSize ''Reached'' i])
                   | (Transferred bytesRead, data) \<Rightarrow>
                       if bytesRead \<noteq> bytesPerSector
                       then (False, [Seek i, Write i, SeekBack i, Read i,
                                     Report (ReadBytes bytesRead bytesPerSector i), ms_OutputSize '''' i])
                       else
                         (let readBuffer =
                                (\<lambda>a. if a < unat bytesRead then data a
                                     else memset verifyBuffer 0xFF (unat bytesPerSector) a)
                          in case VerifyTheFile_check readBuffer dataOffsets count [0, 1, 2, 3] of
                               Some wrong \<Rightarrow>
                                 (False, [Seek i, Write i, SeekBack i, Read i,
                                          Report (DataIncorrect wrong (count + 1) i), ms_OutputSize '''' i])
                             | None \<Rightarrow> (True, [Seek i, Write i, SeekBack i, Read i])))))"

fun VerifyTheFile_loop ::
  "nat \<Rightarrow> probe_device \<Rightarrow> buffer \<Rightarrow> DWORD \<Rightarrow> bool \<Rightarrow> int64_t \<Rightarrow> int64_t \<Rightarrow> uint64_t
     \<Rightarrow> (bool \<times> ms_event list) option" where
  "VerifyTheFile_loop 0 dev heap bytesPerSector noReads fileSize i count = None"
| "VerifyTheFile_loop (Suc fuel) dev heap bytesPerSector noReads fileSize i count =
     (if sint i < sint fileSize then
        (case VerifyTheFile_body dev heap bytesPerSector noReads i count of
           (False, evs) \<Rightarrow> Some (False, evs)
         | (True, evs) \<Rightarrow>
             (case VerifyTheFile_loop fuel dev heap bytesPerSector noReads fileSize (i + verifySize) (count + 1) of
                None \<Rightarrow> None
              | Some (ok, evs1) \<Rightarrow> Some (ok, evs @ evs1)))
      else Some (True, [ms_OutputSize ''is'' fileSize]))"

definition VerifyTheFile ::
  "nat \<Rightarrow> probe_device \<Rightarrow> buffer \<Rightarrow> string \<Rightarrow> DWORD \<Rightarrow> bool \<Rightarrow> bool \<Rightarrow> (bool \<times> ms_event list) option" where
  "VerifyTheFile fuel dev heap pathName bytesPerSector noReads cached =
     (case GetFileSizeEx dev of
        None \<Rightarrow> Some (False, [Report CouldNotGetFileSize])
      | Some fileSize \<Rightarrow>
          (let totalBlocks = fileSize div verifySize in
           if \<not> malloc_ok dev then Some (False, [Report NoVerifyBuffer])
           else VerifyTheFile_loop fuel dev heap bytesPerSector noReads fileSize 0 0))"

definition honest_device :: "int64_t \<Rightarrow> DWORD \<Rightarrow> probe_device" where
  "honest_device fileSize bytesPerSector =
     \<lparr>GetFileSizeEx = Some fileSize, malloc_ok = True, seek_ok = (\<lambda>_. True),
      write_result = (\<lambda>_. Transferred bytesPerSector), seek_back_ok = (\<lambda>_. True),
      read_result = (\<lambda>i written. (Transferred bytesPerSector, written))\<rparr>"

definition probed :: "ms_event list \<Rightarrow> int64_t list" where
  "probed evs = concat (map (\<lambda>e. case e of Seek i \<Rightarrow> [i] | _ \<Rightarrow> []) evs)"

section \<open>Failure of one probe\<close>


definition sector_written :: "buffer \<Rightarrow> DWORD \<Rightarrow> uint64_t \<Rightarrow> buffer" where
  "sector_written heap bytesPerSector count =
     stamp (memset heap 0 (unat bytesPerSector)) (unat (bytesPerSector div 4)) (count + 1)"

definition sector_read_back :: "buffer \<Rightarrow> DWORD \<Rightarrow> uint64_t \<Rightarrow> DWORD \<Rightarrow> buffer \<Rightarrow> buffer" where
  "sector_read_back heap bytesPerSector count bytesRead data =
     (\<lambda>a. if a < unat bytesRead then data a
          else memset (sector_written heap bytesPerSector count) 0xFF (unat bytesPerSector) a)"

definition probe_fails :: "probe_device \<Rightarrow> buffer \<Rightarrow> DWORD \<Rightarrow> bool \<Rightarrow> int64_t \<Rightarrow> uint64_t \<Rightarrow> bool" where
  "probe_fails dev heap bytesPerSector noReads i count \<longleftrightarrow>
     \<not> seek_ok dev i
   \<or> (case write_result dev i of Failed \<Rightarrow> True | Transferred written \<Rightarrow> written \<noteq> bytesPerSector)
   \<or> (\<not> noReads \<and>
        (\<not> seek_back_ok dev i
       \<or> (case read_result dev i (sector_written heap bytesPerSector count) of
            (Failed, data) \<Rightarrow> True
          | (Transferred bytesRead, data) \<Rightarrow>
               bytesRead \<noteq> bytesPerSector
             \<or> VerifyTheFile_check (sector_read_back heap bytesPerSector count bytesRead data)
                   (unat (bytesPerSector div 4)) count [0, 1, 2, 3] \<noteq> None)))"


section \<open>The five allocation steps\<close>

text \<open>Each call that starts a step of the fast allocation is mapped to that step; a step
  succeeds when every call it consists of does.\<close>

datatype alloc_step = AcquirePrivilege | CreateTheFile | MovePointer | CommitEndOfFile | MarkValidData

fun step_of :: "api_call \<Rightarrow> alloc_step option" where
  "step_of OpenProcessToken = Some AcquirePrivilege"
| "step_of (CreateFile name) = Some CreateTheFile"
| "step_of (SetFilePointerEx pos) = Some MovePointer"
| "step_of SetEndOfFile = Some CommitEndOfFile"
| "step_of (SetFileValidData len) = Some MarkValidData"
| "step_of LookupPrivilegeValue = None"
| "step_of AdjustTokenPrivileges = None"
| "step_of CloseHandle_token = None"
| "step_of CloseHandle_file = None"

definition steps_taken :: "api_call list \<Rightarrow> alloc_step list" where
  "steps_taken tr = List.map_filter step_of tr"

fun step_succeeds :: "winapi \<Rightarrow> alloc_step \<Rightarrow> bool" where
  "step_succeeds api AcquirePrivilege \<longleftrightarrow>
     OpenProcessToken_ok api \<and> AdjustTokenPrivileges_ok api \<and> CloseHandle_token_ok api"
| "step_succeeds api CreateTheFile \<longleftrightarrow> CreateFile_ok api"
| "step_succeeds api MovePointer \<longleftrightarrow> SetFilePointerEx_ok api"
| "step_succeeds api CommitEndOfFile \<longleftrightarrow> SetEndOfFile_ok api"
| "step_succeeds api MarkValidData \<longleftrightarrow> SetFileValidData_ok api"

definition all_steps :: "alloc_step list" where
  "all_steps = [AcquirePrivilege, CreateTheFile, MovePointer, CommitEndOfFile, MarkValidData]"

section \<open>Environments of the worked examples\<close>

text \<open>A fast allocation whose \<open>SetEndOfFile\<close> fails; a directory that already holds
  segment 0; a volume that refuses to create files and one that writes 4096 bytes of each;
  a segment whose name carries \<open>-\<close> before its number, on a volume that fails
  to read it; and the same segment holding zeros on a fault-free volume.\<close>

definition api_eof_fails :: winapi where
  "api_eof_fails = \<lparr>OpenProcessToken_ok = True, AdjustTokenPrivileges_ok = True,
     CloseHandle_token_ok = True, CreateFile_ok = True, SetFilePointerEx_ok = True,
     SetEndOfFile_ok = False, SetFileValidData_ok = True, CloseHandle_file_ok = True\<rparr>"

definition segment0 :: file_entry where
  "segment0 = \<lparr>fullName = drive_E @ ''sp000000.bin'', isDirectory = False,
     fileLength = unat fileIOSize, fileData = stamp zero_buffer (unat (fileIOSize div 4)) 1\<rparr>"

definition refusing_disk :: disk where
  "refusing_disk = (honest_disk [])\<lparr>create_fails := (\<lambda>_. True)\<rparr>"

definition short_writing_disk :: disk where
  "short_writing_disk = (honest_disk [])\<lparr>write_fault := (\<lambda>_. Some (Transferred 4096))\<rparr>"

definition dashed_segment0 :: file_entry where
  "dashed_segment0 = \<lparr>fullName = drive_E @ ''sp-00000.bin'', isDirectory = False,
     fileLength = unat fileIOSize, fileData = stamp zero_buffer (unat (fileIOSize div 4)) 1\<rparr>"

definition unreadable_disk :: disk where
  "unreadable_disk = (honest_disk [dashed_segment0])\<lparr>read_fault := (\<lambda>_. Some Failed)\<rparr>"

definition blank_segment :: file_entry where
  "blank_segment = \<lparr>fullName = drive_E @ ''sp-00000.bin'', isDirectory = False,
     fileLength = unat fileIOSize, fileData = zero_buffer\<rparr>"

section \<open>Facts about units and sizes\<close>

lemma sizes: "KiB = 2^10" "MiB = 2^20" "GiB = 2^30" "TiB = 2^40"
  by (simp_all add: KiB_def MiB_def GiB_def TiB_def)

lemma HR_unfold: "HumanReadable s = 
  (if s \<ge> TiB then (''TiB'', s div TiB) else if s \<ge> GiB then (''GiB'', s div GiB)
   else if s \<ge> MiB then (''MiB'', s div MiB) else if s \<ge> KiB then (''KiB'', s div KiB) else (''bytes'', s))"
  by (simp add: HumanReadable_def numSizes_def sizeArray_def sizeNames_def byteName_def)


lemma sint_sizes: "sint KiB = 2^10" "sint MiB = 2^20" "sint GiB = 2^30" "sint TiB = 2^40"
  by (simp_all add: sizes)

lemma ms_HR_unfold: "ms_HumanReadable s = 
  (if sint s \<ge> 2^40 then (''TiB'', word_of_int (sint s sdiv 2^40)) else if sint s \<ge> 2^30 then (''GiB'', word_of_int (sint s sdiv 2^30))
   else if sint s \<ge> 2^20 then (''MiB'', word_of_int (sint s sdiv 2^20)) else if sint s \<ge> 2^10 then (''KiB'', word_of_int (sint s sdiv 2^10)) else (''bytes'', s))"
  by (simp add: ms_HumanReadable_def numSizes_def sizeArray_def ms_sizeArray_def sizeNames_def sizeIsBytes_def sint_sizes)

lemma all_less_4: "(\<forall>j<4. P j) \<longleftrightarrow> P 0 \<and> P (Suc 0) \<and> P 2 \<and> P (3::nat)"
  by (auto simp: less_Suc_eq numeral_eq_Suc)

lemma unit_values: "sizeArray ! 0 = 2^40" "sizeArray ! Suc 0 = 2^30" "sizeArray ! 2 = 2^20" "sizeArray ! 3 = 2^10" "numSizes = 4"
  "sizeNames ! 0 = ''TiB''" "sizeNames ! Suc 0 = ''GiB''" "sizeNames ! 2 = ''MiB''" "sizeNames ! 3 = ''KiB''"
  by (simp_all add: sizeArray_def sizeNames_def numSizes_def sizes numeral_eq_Suc)

lemma HR_small: "s < 1024 \<Longrightarrow> HumanReadable s = (''bytes'', s)"
  unfolding HR_unfold sizes by (auto simp: word_le_nat_alt word_less_nat_alt)

lemma HR_big: 
  assumes "1024 \<le> s"
  shows "\<exists>k<numSizes. sizeArray ! k \<le> s \<and> (\<forall>j<numSizes. sizeArray ! j \<le> s \<longrightarrow> sizeArray ! j \<le> sizeArray ! k)
     \<and> HumanReadable s = (sizeNames ! k, s div sizeArray ! k)
     \<and> unat (snd (HumanReadable s)) = unat s div unat (sizeArray ! k)"
proof -
  consider "2^40 \<le> s" | "s < 2^40" "2^30 \<le> s" | "s < 2^30" "2^20 \<le> s" | "s < 2^20" "2^10 \<le> s"
    using assms by fastforce
  then show ?thesis
  proof cases
    case 1
    then show ?thesis
      by (intro exI[of _ 0]) (simp add: unit_values all_less_4 HR_unfold sizes unat_div)
  next
    case 2
    then have "\<not> 2^40 \<le> s" by simp
    with 2 show ?thesis
      by (intro exI[of _ "Suc 0"]) (simp add: unit_values all_less_4 HR_unfold sizes unat_div)
  next
    case 3
    then have "\<not> 2^40 \<le> s" "\<not> 2^30 \<le> s" by (simp_all add: word_le_nat_alt word_less_nat_alt)
    with 3 show ?thesis
      by (intro exI[of _ 2]) (simp add: unit_values all_less_4 HR_unfold sizes unat_div)
  next
    case 4
    then have "\<not> 2^40 \<le> s" "\<not> 2^30 \<le> s" "\<not> 2^20 \<le> s" by (simp_all add: word_le_nat_alt word_less_nat_alt)
    with 4 show ?thesis
      by (intro exI[of _ 3]) (simp add: unit_values all_less_4 HR_unfold sizes unat_div)
  qed
qed

lemma ms_HR_small: "sint s < 1024 \<Longrightarrow> ms_HumanReadable s = (''bytes'', s)"
  unfolding ms_HR_unfold by auto

lemma ms_unit_values: "sint (ms_sizeArray ! 0) = 2^40" "sint (ms_sizeArray ! Suc 0) = 2^30" "sint (ms_sizeArray ! 2) = 2^20" "sint (ms_sizeArray ! 3) = 2^10" 
  by (simp_all add: ms_sizeArray_def sizes numeral_eq_Suc)

lemma sint_quot: 
  assumes "0 \<le> sint (s::64 word)" "0 < (u::int)"
  shows "sint (word_of_int (sint s sdiv u) :: 64 word) = sint s div u"
proof -
  have q: "sint s sdiv u = sint s div u" using assms by (cases "sint s = 0") (simp_all add: signed_divide_int_def sgn_if)
  have "sint s < 2^63" using sint_lt[of s] by simp
  moreover have "sint s div u \<le> sint s" using assms zdiv_mono2[of "sint s" 1 u] by simp 
  moreover have "0 \<le> sint s div u" using assms by (simp add: pos_imp_zdiv_nonneg_iff)
  ultimately show ?thesis unfolding q
    by (simp add: sint_sbintrunc' signed_take_bit_int_eq_self)
qed

lemma ms_HR_big: 
  assumes "1024 \<le> sint s"
  shows "\<exists>k<numSizes. sint (ms_sizeArray ! k) \<le> sint s \<and> (\<forall>j<numSizes. sint (ms_sizeArray ! j) \<le> sint s \<longrightarrow> sint (ms_sizeArray ! j) \<le> sint (ms_sizeArray ! k))
     \<and> fst (ms_HumanReadable s) = sizeNames ! k
     \<and> sint (snd (ms_HumanReadable s)) = sint s div sint (ms_sizeArray ! k)"
proof -
  have nn: "0 \<le> sint s" using assms by simp
  consider "2^40 \<le> sint s" | "sint s < 2^40" "2^30 \<le> sint s" | "sint s < 2^30" "2^20 \<le> sint s" | "sint s < 2^20" "2^10 \<le> sint s"
    using assms by fastforce
  then show ?thesis
  proof cases
    case 1
    then show ?thesis
      by (intro exI[of _ 0]) (simp add: unit_values ms_unit_values all_less_4 ms_HR_unfold sint_quot[OF nn])
  next
    case 2
    then show ?thesis
      by (intro exI[of _ "Suc 0"]) (simp add: unit_values ms_unit_values all_less_4 ms_HR_unfold sint_quot[OF nn])
  next
    case 3
    then show ?thesis
      by (intro exI[of _ 2]) (simp add: unit_values ms_unit_values all_less_4 ms_HR_unfold sint_quot[OF nn])
  next
    case 4
    then show ?thesis
      by (intro exI[of _ 3]) (simp add: unit_values ms_unit_values all_less_4 ms_HR_unfold sint_quot[OF nn])
  qed
qed

text \<open>
  \<^bold>\<open>C10\<close>. For every byte count \<open>s\<close> the conversion picks the largest of
  TiB, GiB, MiB, KiB that does not exceed \<open>s\<close> and returns the floor quotient of
  \<open>s\<close> by it; below 1024 it returns \<open>s\<close> itself with the unit \<open>bytes\<close>.
  This holds for the unsigned function of spacechk and, read as signed numbers, for the
  function of maxspace.
\<close>

theorem HumanReadable_largest_unit:
  fixes s :: uint64_t
  shows "(s < 1024 \<longrightarrow> HumanReadable s = (''bytes'', s))
    \<and> (1024 \<le> s \<longrightarrow>
         (\<exists>k<numSizes. sizeArray ! k \<le> s
            \<and> (\<forall>j<numSizes. sizeArray ! j \<le> s \<longrightarrow> sizeArray ! j \<le> sizeArray ! k)
            \<and> HumanReadable s = (sizeNames ! k, s div sizeArray ! k)
            \<and> unat (snd (HumanReadable s)) = unat s div unat (sizeArray ! k)))
    \<and> (sint s < 1024 \<longrightarrow> ms_HumanReadable s = (''bytes'', s))
    \<and> (1024 \<le> sint s \<longrightarrow>
         (\<exists>k<numSizes. sint (ms_sizeArray ! k) \<le> sint s
            \<and> (\<forall>j<numSizes. sint (ms_sizeArray ! j) \<le> sint s
                   \<longrightarrow> sint (ms_sizeArray ! j) \<le> sint (ms_sizeArray ! k))
            \<and> fst (ms_HumanReadable s) = sizeNames ! k
            \<and> sint (snd (ms_HumanReadable s)) = sint s div sint (ms_sizeArray ! k)))"
  using HR_small[of s] HR_big[of s] ms_HR_small[of s] ms_HR_big[of s] by blast

theorem HumanReadable_largest_unit_witness:
  "(5000 :: uint64_t) \<ge> 1024 \<and> HumanReadable 5000 = (''KiB'', 4)
   \<and> HumanReadable 1023 = (''bytes'', 1023)
   \<and> fst (ms_HumanReadable 3221225472) = ''GiB'' \<and> sint (snd (ms_HumanReadable 3221225472)) = 3"
  using HumanReadable_largest_unit [of 5000] HumanReadable_largest_unit [of 1023]
    HumanReadable_largest_unit [of 3221225472]
  by (simp add: HR_unfold ms_HR_unfold sizes)

section \<open>Facts about the device statistics\<close>

lemma unat_DWORD_bound: "unat (x :: DWORD) < 4294967296"
  using unsigned_less[of x, where 'a=nat] by simp

lemma unat_ucast_DWORD: "unat (ucast (x :: DWORD) :: uint64_t) = unat x"
proof -
  have "unat x < 2 ^ 64" using unat_DWORD_bound[of x] by simp
  then show ?thesis by (simp only: unsigned_ucast_eq take_bit_nat_eq_self len_bit0 len_num1 mult_1_right, simp add: take_bit_nat_eq_self)
qed

lemma DWORD_product_small: "unat (b :: DWORD) * unat (s :: DWORD) < 2 ^ 64"
proof -
  have "unat b * unat s \<le> 4294967295 * 4294967295"
    using unat_DWORD_bound[of b] unat_DWORD_bound[of s] by (intro mult_mono) simp_all
  then show ?thesis by simp
qed

lemma first_product_exact:
  "unat (ucast (b :: DWORD) * ucast (s :: DWORD) :: uint64_t) = unat b * unat s"
proof -
  have "unat (ucast b * ucast s :: uint64_t) = (unat (ucast b :: uint64_t) * unat (ucast s :: uint64_t)) mod 2 ^ 64"
    by (simp only: unat_word_ariths len_bit0 len_num1 mult_1_right) simp
  also have "\<dots> = (unat b * unat s) mod 2 ^ 64" by (simp only: unat_ucast_DWORD)
  also have "\<dots> = unat b * unat s" using DWORD_product_small[of b s] by (rule mod_less)
  finally show ?thesis .
qed

lemma space_product:
  "unat (ucast (b :: DWORD) * ucast (s :: DWORD) * ucast (c :: DWORD) :: uint64_t) = (unat b * unat s * unat c) mod 2 ^ 64"
proof -
  have "unat (ucast b * ucast s * ucast c :: uint64_t)
      = (unat (ucast b * ucast s :: uint64_t) * unat (ucast c :: uint64_t)) mod 2 ^ 64"
    by (simp only: unat_word_ariths len_bit0 len_num1 mult_1_right) simp
  then show ?thesis by (simp only: first_product_exact unat_ucast_DWORD)
qed

lemma sint_of_small:
  assumes "unat (w :: 64 word) < 2 ^ 63"
  shows "sint w = int (unat w)"
proof -
  have "int (unat w) < int (2 ^ 63)" using assms by (rule iffD2[OF of_nat_less_iff])
  then have u: "uint w < 9223372036854775808" by simp
  have "0 \<le> uint w" by simp
  then have "- 9223372036854775808 \<le> uint w" by linarith
  with u have "signed_take_bit 63 (uint w) = uint w"
    by (intro signed_take_bit_int_eq_self) simp_all
  then show ?thesis by (simp add: sint_uint)
qed

text \<open>
  \<^bold>\<open>C9\<close>, as stated: for all 32-bit sector sizes, sectors per cluster and cluster
  counts the derived space is the exact product. The accumulator is 64 bits wide, and
  three 32-bit factors can reach \<open>2 ^ 96\<close>: at \<open>2 ^ 31\<close>, \<open>2 ^ 31\<close> and
  \<open>4\<close> the product is \<open>2 ^ 64\<close> and the program computes 0.
\<close>

theorem main_space_overflow_counterexample:
  "unat (main_freeSpace 0x80000000 0x80000000 4)
     \<noteq> unat (0x80000000 :: DWORD) * unat (0x80000000 :: DWORD) * unat (4 :: DWORD)"
  by (simp add: main_freeSpace_def)

text \<open>
  \<^bold>\<open>C9\<close>, amended: the first multiplication, of two 32-bit values in a 64-bit
  accumulator, is always exact, so nothing is truncated at 32 bits; the derived free and
  total space equal the product modulo \<open>2 ^ 64\<close>, hence the exact product whenever
  that is below \<open>2 ^ 64\<close> (below \<open>2 ^ 63\<close> for the signed accumulator of
  maxspace).
\<close>

theorem main_space_exact_below_2_64:
  fixes b s c :: DWORD
  shows "unat (ucast b * ucast s :: uint64_t) = unat b * unat s
    \<and> unat (main_freeSpace b s c) = (unat b * unat s * unat c) mod 2 ^ 64
    \<and> unat (main_totalSpace b s c) = (unat b * unat s * unat c) mod 2 ^ 64
    \<and> (unat b * unat s * unat c < 2 ^ 64 \<longrightarrow>
          unat (main_freeSpace b s c) = unat b * unat s * unat c
        \<and> unat (main_totalSpace b s c) = unat b * unat s * unat c)
    \<and> (unat b * unat s * unat c < 2 ^ 63 \<longrightarrow>
          sint (ms_main_freeSpace b s c) = int (unat b * unat s * unat c)
        \<and> sint (ms_main_totalSpace b s c) = int (unat b * unat s * unat c))"
proof -
  let ?p = "unat b * unat s * unat c"
  let ?w = "ucast b * ucast s * ucast c :: uint64_t"
  have defs: "main_freeSpace b s c = ?w" "main_totalSpace b s c = ?w"
    "ms_main_freeSpace b s c = ?w" "ms_main_totalSpace b s c = ?w"
    by (simp_all only: main_freeSpace_def main_totalSpace_def ms_main_freeSpace_def
        ms_main_totalSpace_def Let_def)
  have m: "unat ?w = ?p mod 2 ^ 64"
    by (rule space_product)
  have exact: "unat ?w = ?p" if "?p < 2 ^ 64"
    using m that by (simp only: mod_less)
  have small: "sint ?w = int ?p" if "?p < 2 ^ 63"
  proof -
    have "(2::nat) ^ 63 < 2 ^ 64" by simp
    with that have "?p < 2 ^ 64" by (rule less_trans)
    then have e: "unat ?w = ?p" by (rule exact)
    with that have "unat ?w < 2 ^ 63" by (simp only:)
    then have "sint ?w = int (unat ?w)" by (rule sint_of_small)
    then show ?thesis by (simp only: e)
  qed
  show ?thesis
    unfolding defs using first_product_exact[of b s] m exact small by blast
qed

theorem main_space_exact_below_2_64_witness:
  "unat (512 :: DWORD) * unat (8 :: DWORD) * unat (1000000 :: DWORD) < 2 ^ 63
   \<and> unat (main_freeSpace 512 8 1000000) = 4096000000
   \<and> sint (ms_main_totalSpace 512 8 1000000) = 4096000000"
  using main_space_exact_below_2_64 [of 512 8 1000000] by simp

section \<open>Facts about the stamped pattern\<close>

lemma store64_byte: "k < 8 \<Longrightarrow> store64 buf p v (p + k) = ucast (drop_bit (8 * k) v)"
  by (simp add: store64_def)

lemma load_store_same: "load64 (store64 buf p v) p = v"
proof (rule bit_word_eqI)
  fix n assume n: "n < LENGTH(64)"
  have cover: "n < 8 \<or> (8 \<le> n \<and> n < 16) \<or> (16 \<le> n \<and> n < 24) \<or> (24 \<le> n \<and> n < 32) \<or> (32 \<le> n \<and> n < 40)
     \<or> (40 \<le> n \<and> n < 48) \<or> (48 \<le> n \<and> n < 56) \<or> (56 \<le> n \<and> n < 64)"
    using n by simp arith
  have b: "store64 buf p v p = ucast v"
    "store64 buf p v (p + 1) = ucast (drop_bit 8 v)"
    "store64 buf p v (p + 2) = ucast (drop_bit 16 v)"
    "store64 buf p v (p + 3) = ucast (drop_bit 24 v)"
    "store64 buf p v (p + 4) = ucast (drop_bit 32 v)"
    "store64 buf p v (p + 5) = ucast (drop_bit 40 v)"
    "store64 buf p v (p + 6) = ucast (drop_bit 48 v)"
    "store64 buf p v (p + 7) = ucast (drop_bit 56 v)"
    using store64_byte[of 0 buf p v] store64_byte[of 1 buf p v] store64_byte[of 2 buf p v] store64_byte[of 3 buf p v]
      store64_byte[of 4 buf p v] store64_byte[of 5 buf p v] store64_byte[of 6 buf p v] store64_byte[of 7 buf p v]
    by simp_all
  show "bit (load64 (store64 buf p v) p) n = bit v n"
    unfolding load64_def b
    using cover by (elim disjE conjE) (simp_all add: bit_simps less_diff_conv2)
qed

lemma store64_outside: "a < p \<or> p + 8 \<le> a \<Longrightarrow> store64 buf p v a = buf a"
  by (auto simp: store64_def)

lemma load_store_other:
  assumes "q + 8 \<le> p \<or> p + 8 \<le> q"
  shows "load64 (store64 buf p v) q = load64 buf q"
proof -
  have "store64 buf p v (q + k) = buf (q + k)" if "k < 8" for k
    using assms that by (intro store64_outside) arith
  from this[of 0] this[of 1] this[of 2] this[of 3] this[of 4] this[of 5] this[of 6] this[of 7]
  show ?thesis by (simp add: load64_def)
qed

lemma load_stamp:
  assumes "8 \<le> d" "k \<in> {0, 1, 2, 3}"
  shows "load64 (stamp buf d v) (k * d) = v"
  using assms by (auto simp: stamp_def load_store_same load_store_other)


lemma sizes_num: "fileIOSize = 10485760" "verifySize = 10485760" "MiB = 1048576"
  by (simp_all add: fileIOSize_def verifySize_def MiB_def KiB_def)


lemma sector_quarter: "unat (bytesPerSector div 4 :: DWORD) = unat bytesPerSector div 4"
  by (simp add: unat_div)














section \<open>Facts about the fast allocation\<close>

text \<open>
  \<^bold>\<open>C5\<close>. The allocation steps that CreateVerifyFile performs are the steps that
  succeed, in order, followed by the first one that fails, and nothing after it; the
  function returns true exactly when all five succeed and the file is closed.
\<close>

theorem CreateVerifyFile_all_or_abort:
  "steps_taken (snd (CreateVerifyFile api pathName bytesPerSector totalSpace))
     = takeWhile (step_succeeds api) all_steps @ take 1 (dropWhile (step_succeeds api) all_steps)
   \<and> (fst (CreateVerifyFile api pathName bytesPerSector totalSpace)
        \<longleftrightarrow> (\<forall>s \<in> set all_steps. step_succeeds api s) \<and> CloseHandle_file_ok api)"
  by (simp add: CreateVerifyFile_def AddPrivelege_def steps_taken_def all_steps_def
      List.map_filter_simps Let_def)

theorem CreateVerifyFile_all_or_abort_witness:
  "steps_taken (snd (CreateVerifyFile api_eof_fails ''E:'' 512 4096))
     = [AcquirePrivilege, CreateTheFile, MovePointer, CommitEndOfFile]
   \<and> \<not> fst (CreateVerifyFile api_eof_fails ''E:'' 512 4096)"
  using CreateVerifyFile_all_or_abort [of api_eof_fails "''E:''" 512 4096]
  by (simp add: api_eof_fails_def all_steps_def)

section \<open>Facts about segmented creation\<close>

lemma fmt0: "fmt_06llx 0 = ''000000''" "fmt_06llx 1 = ''000001''"
  by (simp_all add: fmt_06llx_def hex_of_nat.simps hex_digit_def numeral_eq_Suc)

lemmas CreateFiles_eval = CreateFiles_def CreateFiles_loop.simps CreateFiles_body_def sizes_num fmt0
      os_CreateFile_always_def os_WriteFile_def honest_disk_def filePrefix_def Let_def put_file_def

lemmas VerifyFiles_eval = VerifyFiles_def VerifyFiles_body_def os_ReadFile_def get_file_def
  FindFiles_def matches_search_def drive_E_def Let_def

text \<open>
  \<^bold>\<open>C1\<close> states that creation resumes after the highest existing sequence number.
  On a directory that already holds segment 0, with room for two segments, the code
  creates \<open>sp000000.bin\<close> again and then \<open>sp000001.bin\<close>: the value of
  FindPriorFiles is never used, and it is 0 here because the names hold no \<open>-\<close>.
\<close>

theorem CreateFiles_restarts_at_zero:
  "created (snd (snd (CreateFiles (honest_disk [segment0]) garbage heap drive_E 512 (20 * MiB))))
     = [drive_E @ ''sp000000.bin'', drive_E @ ''sp000001.bin'']
   \<and> FindPriorFiles (honest_disk [segment0]) garbage drive_E = 0"
  by (simp add: CreateFiles_eval created_def FindPriorFiles_def FindFiles_def matches_search_def
      segment0_def drive_E_def)

text \<open>
  \<^bold>\<open>C6\<close> states that a creation failure, a write failure and a short write each
  report the offset \<open>i * fileIOSize\<close>. On a volume that refuses to create the first
  file, and on one that writes 4096 bytes of it, the code returns false and prints no
  offset; only the failed write prints \<open>Reached\<close>.
\<close>

theorem CreateFiles_failure_without_offset:
  "CreateFiles refusing_disk garbage heap drive_E 512 (10 * MiB)
     = (False, refusing_disk,
        [CreateFile_CREATE_ALWAYS (drive_E @ ''sp000000.bin''),
         PrintError (CannotCreate (drive_E @ ''sp000000.bin''))])
   \<and> snd (snd (CreateFiles short_writing_disk garbage heap drive_E 512 (10 * MiB)))
     = [CreateFile_CREATE_ALWAYS (drive_E @ ''sp000000.bin''), WriteFile (drive_E @ ''sp000000.bin''),
        PrintError (ShortWrite 4096)]
   \<and> \<not> fst (CreateFiles short_writing_disk garbage heap drive_E 512 (10 * MiB))"
  by (simp add: CreateFiles_eval refusing_disk_def short_writing_disk_def)

section \<open>Facts about segmented verification\<close>

text \<open>
  \<^bold>\<open>C2\<close> states that verification succeeds on what a completed creation left on a
  fault-free volume. After creating one segment, the code reads the file, looks for
  \<open>-\<close> in its name, finds none in the path \<open>sp000000.bin\<close> on drive E and returns false,
  whatever the keep-verifying flag.
\<close>

theorem VerifyFiles_rejects_created_files:
  "fst (CreateFiles (honest_disk []) garbage heap drive_E 512 (10 * MiB))
   \<and> VerifyFiles (fst (snd (CreateFiles (honest_disk []) garbage heap drive_E 512 (10 * MiB))))
         garbage heap drive_E 512 keepGoing
       = (False, [CreateFile_OPEN_EXISTING (drive_E @ ''sp000000.bin''),
                  ReadFile (drive_E @ ''sp000000.bin''),
                  wprintf_NoSequenceNumber (drive_E @ ''sp000000.bin'')])"
  by (simp add: CreateFiles_eval VerifyFiles_eval)

lemma VerifyFiles_check_reports:
  assumes "\<exists>k \<in> set ks. load64 buf (k * unat (fileIOSize div 4)) \<noteq> seqNum + 1"
  shows "OutputSize ''Reached'' ((seqNum + 1) * fileIOSize)
           \<in> set (snd (VerifyFiles_check buf seqNum keepGoing ks))"
  using assms
  by (induction ks) (auto simp: Let_def split: prod.splits)

lemma VerifyFiles_check_stops:
  assumes "\<exists>k \<in> set ks. load64 buf (k * unat (fileIOSize div 4)) \<noteq> seqNum + 1"
  shows "\<not> fst (VerifyFiles_check buf seqNum False ks)
       \<and> last (snd (VerifyFiles_check buf seqNum False ks))
           = OutputSize ''Reached'' ((seqNum + 1) * fileIOSize)"
  using assms
  by (induction ks) (auto simp: Let_def split: prod.splits)

lemma VerifyFiles_loop_append:
  "VerifyFiles_loop d g p k buf (pre @ rest) =
     (case VerifyFiles_loop d g p k buf pre of
        (False, evs) \<Rightarrow> (False, evs)
      | (True, evs) \<Rightarrow>
          (case VerifyFiles_loop d g p k buf rest of (ok, evs1) \<Rightarrow> (ok, evs @ evs1)))"
proof (induction pre)
  case Nil
  show ?case by (simp split: prod.splits)
next
  case (Cons e pre)
  obtain n dir where e: "e = (n, dir)" by (cases e)
  show ?case
    unfolding e using Cons.IH
    by (simp split: prod.splits bool.splits)
qed

lemma VerifyFiles_unfold:
  assumes "FindFiles d pathName = f # fs" "\<not> malloc_fails d"
  shows "VerifyFiles d garbage heap pathName bytesPerSector keepGoing =
      (case VerifyFiles_loop d garbage pathName keepGoing heap (f # fs) of
         (False, evs) \<Rightarrow> (False, evs)
       | (True, evs) \<Rightarrow> (True, evs @ [OutputSize ''taking''
            (of_nat (length (filter (\<lambda>(cFileName, dir). \<not> dir) (f # fs))) * fileIOSize)]))"
  using assms by (simp add: VerifyFiles_def del: VerifyFiles_loop.simps)

lemma VerifyFiles_at_file:
  assumes found: "FindFiles d pathName = pre @ (cFileName, False) # rest"
    and mem: "\<not> malloc_fails d"
    and reach: "fst (VerifyFiles_loop d garbage pathName keepGoing heap pre)"
  shows "\<exists>tail. VerifyFiles d garbage heap pathName bytesPerSector keepGoing =
      (if fst (VerifyFiles_body d garbage pathName keepGoing heap cFileName)
       then (fst (VerifyFiles_loop d garbage pathName keepGoing heap rest),
             snd (VerifyFiles_loop d garbage pathName keepGoing heap pre)
             @ snd (VerifyFiles_body d garbage pathName keepGoing heap cFileName) @ tail)
       else (False, snd (VerifyFiles_loop d garbage pathName keepGoing heap pre)
                    @ snd (VerifyFiles_body d garbage pathName keepGoing heap cFileName)))"
proof -
  let ?body = "VerifyFiles_body d garbage pathName keepGoing heap cFileName"
  let ?pre = "VerifyFiles_loop d garbage pathName keepGoing heap pre"
  let ?rest = "VerifyFiles_loop d garbage pathName keepGoing heap rest"
  obtain epre where pre: "?pre = (True, epre)"
    using reach by (cases ?pre) auto
  have loop: "VerifyFiles_loop d garbage pathName keepGoing heap (FindFiles d pathName) =
      (if fst ?body then (fst ?rest, epre @ snd ?body @ snd ?rest) else (False, epre @ snd ?body))"
    unfolding found VerifyFiles_loop_append pre
    by (simp split: prod.splits bool.splits)
  have "FindFiles d pathName \<noteq> []" using found by simp
  then obtain f fs where ffs: "FindFiles d pathName = f # fs"
    by (cases "FindFiles d pathName") auto
  have V: "VerifyFiles d garbage heap pathName bytesPerSector keepGoing =
      (case VerifyFiles_loop d garbage pathName keepGoing heap (FindFiles d pathName) of
         (False, evs) \<Rightarrow> (False, evs)
       | (True, evs) \<Rightarrow> (True, evs @ [OutputSize ''taking''
            (of_nat (length (filter (\<lambda>(cFileName, dir). \<not> dir) (FindFiles d pathName))) * fileIOSize)]))"
    unfolding ffs by (rule VerifyFiles_unfold[OF ffs mem])
  show ?thesis
    unfolding V loop by (cases "fst ?rest") (auto simp: pre)
qed

text \<open>
  \<^bold>\<open>C7\<close>, as stated: a read failure is reported with the offset
  \<open>(sequence_number + 1) * fileIOSize\<close>. The file \<open>sp-00000.bin\<close> has
  sequence number 0; when reading it fails, the code prints the error and returns
  false, and no size is printed.
\<close>

theorem VerifyFiles_read_failure_counterexample:
  "VerifyFiles unreadable_disk 0 zero_buffer drive_E 512 False
     = (False, [CreateFile_OPEN_EXISTING (drive_E @ ''sp-00000.bin''),
                ReadFile (drive_E @ ''sp-00000.bin''),
                PrintError (CannotRead (drive_E @ ''sp-00000.bin''))])
   \<and> reached (snd (VerifyFiles unreadable_disk 0 zero_buffer drive_E 512 False)) = []
   \<and> wcschr (drive_E @ ''sp-00000.bin'') CHR ''-'' = Some ''-00000.bin''
   \<and> swscanf_llx 0 ''00000.bin'' = 0"
  by (simp add: VerifyFiles_eval unreadable_disk_def dashed_segment0_def honest_disk_def reached_def
      filePrefix_def swscanf_llx_def hex_value_def zero_buffer_def)

text \<open>
  \<^bold>\<open>C7\<close>, amended. Let verification reach a file that opens. A read failure or a
  short read ends verification there with failure, in either mode. When the file is read
  in full and one of its four markers differs from the sequence number in its name plus
  one, the offset \<open>(sequence_number + 1) * fileIOSize\<close> is printed as
  \<open>Reached\<close>; without keep-verifying that line is the last thing verification
  does, and it returns false.
\<close>

theorem VerifyFiles_mismatch_reported:
  assumes found: "FindFiles d pathName = pre @ (cFileName, False) # rest"
    and mem: "\<not> malloc_fails d"
    and reach: "fst (VerifyFiles_loop d garbage pathName keepGoing heap pre)"
    and opens: "\<not> open_fails d (pathName @ cFileName)"
  shows "(snd (os_ReadFile d (pathName @ cFileName) heap (ucast fileIOSize)) = Failed
          \<or> (\<exists>n. snd (os_ReadFile d (pathName @ cFileName) heap (ucast fileIOSize)) = Transferred n
                 \<and> ucast n \<noteq> fileIOSize)
        \<longrightarrow> \<not> fst (VerifyFiles d garbage heap pathName bytesPerSector keepGoing)
          \<and> snd (VerifyFiles d garbage heap pathName bytesPerSector keepGoing)
              = snd (VerifyFiles_loop d garbage pathName keepGoing heap pre)
                @ snd (VerifyFiles_body d garbage pathName keepGoing heap cFileName))
     \<and> (\<forall>buf n seqPtr.
          os_ReadFile d (pathName @ cFileName) heap (ucast fileIOSize) = (buf, Transferred n)
          \<and> ucast n = fileIOSize
          \<and> wcschr (pathName @ cFileName) CHR ''-'' = Some seqPtr
          \<and> (\<exists>k \<in> {0, 1, 2, 3}.
                load64 buf (k * unat (fileIOSize div 4)) \<noteq> swscanf_llx garbage (tl seqPtr) + 1)
        \<longrightarrow> OutputSize ''Reached'' ((swscanf_llx garbage (tl seqPtr) + 1) * fileIOSize)
              \<in> set (snd (VerifyFiles d garbage heap pathName bytesPerSector keepGoing))
          \<and> (\<not> keepGoing \<longrightarrow>
                \<not> fst (VerifyFiles d garbage heap pathName bytesPerSector keepGoing)
              \<and> snd (VerifyFiles d garbage heap pathName bytesPerSector keepGoing)
                  = snd (VerifyFiles_loop d garbage pathName keepGoing heap pre)
                    @ snd (VerifyFiles_body d garbage pathName keepGoing heap cFileName)
              \<and> last (snd (VerifyFiles d garbage heap pathName bytesPerSector keepGoing))
                  = OutputSize ''Reached'' ((swscanf_llx garbage (tl seqPtr) + 1) * fileIOSize)))"
proof -
  let ?V = "VerifyFiles d garbage heap pathName bytesPerSector keepGoing"
  let ?body = "VerifyFiles_body d garbage pathName keepGoing heap cFileName"
  let ?pre = "VerifyFiles_loop d garbage pathName keepGoing heap pre"
  let ?rd = "os_ReadFile d (pathName @ cFileName) heap (ucast fileIOSize)"
  obtain tail where V: "?V =
      (if fst ?body
       then (fst (VerifyFiles_loop d garbage pathName keepGoing heap rest), snd ?pre @ snd ?body @ tail)
       else (False, snd ?pre @ snd ?body))"
    using VerifyFiles_at_file[OF found mem reach] by blast
  have io: "\<not> fst ?V \<and> snd ?V = snd ?pre @ snd ?body"
    if "snd ?rd = Failed \<or> (\<exists>n. snd ?rd = Transferred n \<and> ucast n \<noteq> fileIOSize)"
  proof -
    have "\<not> fst ?body"
      using that opens by (cases ?rd) (auto simp: VerifyFiles_body_def Let_def)
    then show ?thesis by (simp add: V)
  qed
  have mm: "OutputSize ''Reached'' ((swscanf_llx garbage (tl seqPtr) + 1) * fileIOSize) \<in> set (snd ?V)
      \<and> (\<not> keepGoing \<longrightarrow> \<not> fst ?V \<and> snd ?V = snd ?pre @ snd ?body
            \<and> last (snd ?V) = OutputSize ''Reached'' ((swscanf_llx garbage (tl seqPtr) + 1) * fileIOSize))"
    if reads: "?rd = (buf, Transferred n)" and full: "ucast n = fileIOSize"
      and seq: "wcschr (pathName @ cFileName) CHR ''-'' = Some seqPtr"
      and mismatch: "\<exists>k \<in> {0, 1, 2, 3}.
           load64 buf (k * unat (fileIOSize div 4)) \<noteq> swscanf_llx garbage (tl seqPtr) + 1"
    for buf n seqPtr
  proof -
    let ?seq = "swscanf_llx garbage (tl seqPtr)"
    let ?R = "OutputSize ''Reached'' ((?seq + 1) * fileIOSize)"
    let ?chk = "VerifyFiles_check buf ?seq keepGoing [0, 1, 2, 3]"
    have m4: "\<exists>k \<in> set [0, 1, 2, 3]. load64 buf (k * unat (fileIOSize div 4)) \<noteq> ?seq + 1"
      using mismatch by simp
    have body: "?body = (fst ?chk, [CreateFile_OPEN_EXISTING (pathName @ cFileName),
                                     ReadFile (pathName @ cFileName)] @ snd ?chk)"
      using opens reads full seq
      by (simp add: VerifyFiles_body_def Let_def split: prod.splits)
    have inbody: "?R \<in> set (snd ?body)"
      using VerifyFiles_check_reports[OF m4, of keepGoing] by (simp add: body)
    have part1: "?R \<in> set (snd ?V)"
      unfolding V using inbody by auto
    have part2: "\<not> fst ?V \<and> snd ?V = snd ?pre @ snd ?body \<and> last (snd ?V) = ?R" if nk: "\<not> keepGoing"
    proof -
      have st: "\<not> fst ?chk" "last (snd ?chk) = ?R"
        using VerifyFiles_check_stops[OF m4] nk by simp_all
      have ne: "snd ?chk \<noteq> []" using inbody by (auto simp: body)
      have nb: "\<not> fst ?body" using st(1) by (simp add: body)
      have lb: "last (snd ?body) = ?R" using st(2) ne by (simp add: body)
      have nbe: "snd ?body \<noteq> []" by (simp add: body)
      show ?thesis
        unfolding V using nb lb nbe by simp
    qed
    show ?thesis using part1 part2 by blast
  qed
  show ?thesis using io mm by blast
qed

theorem VerifyFiles_mismatch_reported_witness:
  "FindFiles (honest_disk [blank_segment]) drive_E = [] @ (''sp-00000.bin'', False) # []
   \<and> \<not> malloc_fails (honest_disk [blank_segment])
   \<and> fst (VerifyFiles_loop (honest_disk [blank_segment]) 0 drive_E False zero_buffer [])
   \<and> \<not> open_fails (honest_disk [blank_segment]) (drive_E @ ''sp-00000.bin'')
   \<and> os_ReadFile (honest_disk [blank_segment]) (drive_E @ ''sp-00000.bin'') zero_buffer (ucast fileIOSize)
       = (zero_buffer, Transferred 10485760)
   \<and> wcschr (drive_E @ ''sp-00000.bin'') CHR ''-'' = Some ''-00000.bin''
   \<and> load64 zero_buffer (0 * unat (fileIOSize div 4)) \<noteq> swscanf_llx 0 (tl ''-00000.bin'') + 1
   \<and> \<not> fst (VerifyFiles (honest_disk [blank_segment]) 0 zero_buffer drive_E 512 False)
   \<and> last (snd (VerifyFiles (honest_disk [blank_segment]) 0 zero_buffer drive_E 512 False))
       = OutputSize ''Reached'' fileIOSize"
proof -
  have found: "FindFiles (honest_disk [blank_segment]) drive_E = [] @ (''sp-00000.bin'', False) # []"
    by (simp add: FindFiles_def matches_search_def honest_disk_def blank_segment_def drive_E_def
        filePrefix_def Let_def)
  have mem: "\<not> malloc_fails (honest_disk [blank_segment])" by (simp add: honest_disk_def)
  have reach: "fst (VerifyFiles_loop (honest_disk [blank_segment]) 0 drive_E False zero_buffer [])" by simp
  have opens: "\<not> open_fails (honest_disk [blank_segment]) (drive_E @ ''sp-00000.bin'')"
    by (simp add: honest_disk_def)
  have reads: "os_ReadFile (honest_disk [blank_segment]) (drive_E @ ''sp-00000.bin'') zero_buffer (ucast fileIOSize)
       = (zero_buffer, Transferred 10485760)"
    by (auto simp: os_ReadFile_def get_file_def honest_disk_def blank_segment_def sizes_num fun_eq_iff zero_buffer_def)
  have seq: "wcschr (drive_E @ ''sp-00000.bin'') CHR ''-'' = Some ''-00000.bin''"
    by (simp add: drive_E_def)
  have scan: "swscanf_llx 0 (tl ''-00000.bin'') = 0"
    by (simp add: swscanf_llx_def hex_value_def)
  have mismatch: "load64 zero_buffer (0 * unat (fileIOSize div 4)) \<noteq> swscanf_llx 0 (tl ''-00000.bin'') + 1"
    using scan by (simp add: load64_def zero_buffer_def)
  from mismatch have ex: "\<exists>k \<in> {0, 1, 2, 3}.
      load64 zero_buffer (k * unat (fileIOSize div 4)) \<noteq> swscanf_llx 0 (tl ''-00000.bin'') + 1"
    by blast
  have full: "ucast (10485760 :: DWORD) = fileIOSize" by (simp add: sizes_num)
  from VerifyFiles_mismatch_reported [OF found mem reach opens, of 512]
  have "\<not> fst (VerifyFiles (honest_disk [blank_segment]) 0 zero_buffer drive_E 512 False)
      \<and> last (snd (VerifyFiles (honest_disk [blank_segment]) 0 zero_buffer drive_E 512 False))
          = OutputSize ''Reached'' ((swscanf_llx 0 (tl ''-00000.bin'') + 1) * fileIOSize)"
    using reads full seq ex by blast
  then show ?thesis
    using found mem reach opens reads seq mismatch scan by simp
qed

section \<open>Facts about the probe pass\<close>

lemma VerifyTheFile_body_pass:
  assumes "\<not> probe_fails dev heap bytesPerSector noReads i count"
  shows "VerifyTheFile_body dev heap bytesPerSector noReads i count =
     (True, if noReads then [Seek i, Write i] else [Seek i, Write i, SeekBack i, Read i])"
  using assms unfolding probe_fails_def sector_read_back_def sector_written_def
  by (auto simp: VerifyTheFile_body_def Let_def split: transfer.splits prod.splits option.splits)



lemma load64_cong:
  assumes "\<And>t. t < 8 \<Longrightarrow> b1 (p + t) = b2 (p + t)"
  shows "load64 b1 p = load64 b2 p"
  using assms[of 0] assms[of 1] assms[of 2] assms[of 3] assms[of 4] assms[of 5] assms[of 6] assms[of 7]
  by (simp add: load64_def)

lemma honest_read_back:
  assumes big: "32 \<le> unat (bytesPerSector :: DWORD)" and k: "k \<in> {0, 1, 2, 3}"
  shows "load64 (sector_read_back heap bytesPerSector count bytesPerSector
                   (sector_written heap bytesPerSector count))
           (k * unat (bytesPerSector div 4)) = count + 1"
proof -
  let ?d = "unat (bytesPerSector div 4)"
  have d: "?d = unat bytesPerSector div 4" by (rule sector_quarter)
  have d8: "8 \<le> ?d" using big unfolding d by arith
  have d4: "4 * ?d \<le> unat bytesPerSector" unfolding d by arith
  have kd: "k * ?d + 8 \<le> 4 * ?d" using k d8 by auto
  have "load64 (sector_read_back heap bytesPerSector count bytesPerSector
                   (sector_written heap bytesPerSector count)) (k * ?d)
      = load64 (sector_written heap bytesPerSector count) (k * ?d)"
  proof (rule load64_cong)
    fix t :: nat assume "t < 8"
    then have "k * ?d + t < unat bytesPerSector" using kd d4 by linarith
    then show "sector_read_back heap bytesPerSector count bytesPerSector
                 (sector_written heap bytesPerSector count) (k * ?d + t)
             = sector_written heap bytesPerSector count (k * ?d + t)"
      by (simp add: sector_read_back_def)
  qed
  also have "\<dots> = count + 1"
    unfolding sector_written_def using d8 k by (rule load_stamp)
  finally show ?thesis .
qed

lemma honest_probe_passes:
  assumes "noReads \<or> 32 \<le> unat bytesPerSector"
  shows "\<not> probe_fails (honest_device fileSize bytesPerSector) heap bytesPerSector noReads i count"
proof (cases noReads)
  case True
  then show ?thesis by (simp add: probe_fails_def honest_device_def)
next
  case False
  with assms have big: "32 \<le> unat bytesPerSector" by simp
  have "VerifyTheFile_check (sector_read_back heap bytesPerSector count bytesPerSector
            (sector_written heap bytesPerSector count))
          (unat (bytesPerSector div 4)) count [0, 1, 2, 3] = None"
  proof -
    have "\<forall>k \<in> {0, 1, 2, 3}. load64 (sector_read_back heap bytesPerSector count bytesPerSector
            (sector_written heap bytesPerSector count)) (k * unat (bytesPerSector div 4)) = count + 1"
      using honest_read_back[OF big] by blast
    then show ?thesis by (simp add: VerifyTheFile_check.simps Let_def)
  qed
  then show ?thesis by (simp add: probe_fails_def honest_device_def)
qed

lemma sint_block_offset:
  assumes "int j * 10485760 < 9223372036854775808"
  shows "sint (of_nat j * verifySize :: int64_t) = int j * 10485760"
proof -
  have lt: "j * 10485760 < 9223372036854775808" using assms by linarith
  have w: "(of_nat j * verifySize :: int64_t) = of_nat (j * 10485760)"
    by (simp add: sizes_num)
  have "unat (of_nat (j * 10485760) :: int64_t) = (j * 10485760) mod 2 ^ 64"
    by (simp only: unat_of_nat len_bit0 len_num1 mult_1_right) simp
  also have "\<dots> = j * 10485760" using lt by simp
  finally have u: "unat (of_nat (j * 10485760) :: int64_t) = j * 10485760" .
  then have "unat (of_nat (j * 10485760) :: int64_t) < 2 ^ 63" using lt by simp
  then have "sint (of_nat (j * 10485760) :: int64_t) = int (unat (of_nat (j * 10485760) :: int64_t))"
    by (rule sint_of_small)
  then show ?thesis unfolding w u by simp
qed

lemma block_in_range:
  assumes "int k * 10485760 < sint (fileSize :: int64_t)" "j \<le> k"
  shows "sint (of_nat j * verifySize :: int64_t) < sint fileSize"
proof -
  have "sint fileSize < 9223372036854775808" using sint_lt[of fileSize] by simp
  moreover have "int j * 10485760 \<le> int k * 10485760" using assms(2) by simp
  ultimately have "int j * 10485760 < 9223372036854775808" using assms(1) by linarith
  then have "sint (of_nat j * verifySize :: int64_t) = int j * 10485760" by (rule sint_block_offset)
  then show ?thesis using assms \<open>int j * 10485760 \<le> int k * 10485760\<close> by linarith
qed

lemma block_next:
  "of_nat m * verifySize + verifySize = (of_nat (Suc m) * verifySize :: int64_t)"
  "of_nat m + 1 = (of_nat (Suc m) :: uint64_t)"
  by (simp_all add: algebra_simps)




section \<open>Facts about the number of units\<close>

lemma word_succ_unat: "(i :: uint64_t) < n \<Longrightarrow> unat (i + 1) = Suc (unat i)"
proof -
  assume "i < n"
  then have "1 + i \<noteq> 0" by (metis add.commute max_word_wrap word_order.extremum_strict)
  then show ?thesis by (simp add: unatSuc add.commute)
qed

lemma created_append: "created (xs @ ys) = created xs @ created ys"
  by (simp add: created_def)

lemma CreateFiles_body_honest:
  "\<exists>fs1. CreateFiles_body (honest_disk fs) pathName i buf =
     Inr (honest_disk fs1, stamp buf (unat (fileIOSize div 4)) (i + 1),
          [CreateFile_CREATE_ALWAYS (pathName @ filePrefix @ fmt_06llx i @ ''.bin''),
           WriteFile (pathName @ filePrefix @ fmt_06llx i @ ''.bin'')])"
  by (simp add: CreateFiles_body_def os_CreateFile_always_def os_WriteFile_def honest_disk_def
      Let_def sizes_num)

lemma CreateFiles_loop_honest:
  "\<exists>fs1 evs. CreateFiles_loop pathName totalFiles i (honest_disk fs) buf = (True, honest_disk fs1, evs)
     \<and> length (created evs) = unat totalFiles - unat i"
proof (induction "unat totalFiles - unat i" arbitrary: i fs buf)
  case 0
  then have "\<not> i < totalFiles" by (simp add: word_less_nat_alt)
  then show ?case using 0 by (subst CreateFiles_loop.simps) (auto simp: created_def)
next
  case (Suc m)
  then have lt: "i < totalFiles" by (simp add: word_less_nat_alt)
  obtain fs1 where body: "CreateFiles_body (honest_disk fs) pathName i buf =
     Inr (honest_disk fs1, stamp buf (unat (fileIOSize div 4)) (i + 1),
          [CreateFile_CREATE_ALWAYS (pathName @ filePrefix @ fmt_06llx i @ ''.bin''),
           WriteFile (pathName @ filePrefix @ fmt_06llx i @ ''.bin'')])"
    using CreateFiles_body_honest by blast
  have m: "m = unat totalFiles - unat (i + 1)"
    using Suc.hyps(2) word_succ_unat[OF lt] by simp
  obtain fs2 evs where rest: "CreateFiles_loop pathName totalFiles (i + 1) (honest_disk fs1)
        (stamp buf (unat (fileIOSize div 4)) (i + 1)) = (True, honest_disk fs2, evs)"
      and len: "length (created evs) = unat totalFiles - unat (i + 1)"
    using Suc.hyps(1)[OF m] by blast
  show ?case
    using lt len m Suc.hyps(2)
    by (subst CreateFiles_loop.simps) (auto simp: body rest created_append created_def)
qed

lemma CreateFiles_honest_count:
  "fst (CreateFiles (honest_disk fs) garbage heap pathName bytesPerSector totalSpace)
   \<and> length (created (snd (snd (CreateFiles (honest_disk fs) garbage heap pathName bytesPerSector totalSpace))))
       = unat totalSpace div unat fileIOSize"
proof -
  obtain fs1 evs where "CreateFiles_loop pathName (totalSpace div fileIOSize) 0 (honest_disk fs)
      (memset heap 0 (unat fileIOSize)) = (True, honest_disk fs1, evs)"
     and "length (created evs) = unat (totalSpace div fileIOSize) - unat (0 :: uint64_t)"
    using CreateFiles_loop_honest by blast
  then show ?thesis
    by (simp add: CreateFiles_def Let_def unat_div) (simp add: honest_disk_def)
qed

lemma probed_append: "probed (xs @ ys) = probed xs @ probed ys"
  by (simp add: probed_def)

lemma VerifyTheFile_loop_honest:
  fixes fileSize :: int64_t
  defines "n \<equiv> (nat (sint fileSize) + 10485759) div 10485760"
  assumes nonneg: "0 \<le> sint fileSize"
    and room: "sint fileSize \<le> 9223372036844290047"
    and sector: "noReads \<or> 32 \<le> unat bytesPerSector"
  shows "m \<le> n \<Longrightarrow> n - m < fuel \<Longrightarrow>
     \<exists>evs. VerifyTheFile_loop fuel (honest_device fileSize bytesPerSector) heap bytesPerSector noReads
              fileSize (of_nat m * verifySize) (of_nat m) = Some (True, evs)
       \<and> length (probed evs) = n - m"
proof (induction "n - m" arbitrary: m fuel)
  case 0
  then have mn: "m = n" by simp
  obtain f where fuel: "fuel = Suc f" using 0 by (cases fuel) auto
  have up: "int n * 10485760 < 9223372036854775808" and ge: "sint fileSize \<le> int n * 10485760"
    using nonneg room unfolding n_def by linarith+
  have "sint (of_nat n * verifySize :: int64_t) = int n * 10485760"
    using up by (rule sint_block_offset)
  then have "\<not> sint (of_nat n * verifySize :: int64_t) < sint fileSize" using ge by linarith
  then show ?case unfolding fuel mn by (simp add: probed_def)
next
  case (Suc d)
  then have mn: "m < n" and d: "d = n - Suc m" and mn': "Suc m \<le> n" by simp_all
  obtain f where fuel: "fuel = Suc f" and f: "n - Suc m < f"
    using Suc.prems Suc.hyps(2) by (cases fuel) auto
  have "int m * 10485760 < sint fileSize"
    using mn nonneg unfolding n_def by linarith
  then have r: "sint (of_nat m * verifySize :: int64_t) < sint fileSize"
    using block_in_range[of m fileSize m] by simp
  let ?evs1 = "if noReads then [Seek (of_nat m * verifySize), Write (of_nat m * verifySize)]
       else [Seek (of_nat m * verifySize), Write (of_nat m * verifySize),
             SeekBack (of_nat m * verifySize), Read (of_nat m * verifySize)]"
  have b: "VerifyTheFile_body (honest_device fileSize bytesPerSector) heap bytesPerSector noReads
             (of_nat m * verifySize) (of_nat m) = (True, ?evs1)"
    by (rule VerifyTheFile_body_pass[OF honest_probe_passes[OF sector]])
  obtain evs where rest: "VerifyTheFile_loop f (honest_device fileSize bytesPerSector) heap bytesPerSector
        noReads fileSize (of_nat (Suc m) * verifySize) (of_nat (Suc m)) = Some (True, evs)"
    and len: "length (probed evs) = n - Suc m"
    using Suc.hyps(1)[OF d mn' f] by blast
  have run: "VerifyTheFile_loop fuel (honest_device fileSize bytesPerSector) heap bytesPerSector noReads
        fileSize (of_nat m * verifySize) (of_nat m) = Some (True, ?evs1 @ evs)"
    unfolding fuel using r b rest by (simp add: block_next)
  have "length (probed (?evs1 @ evs)) = n - m"
    using len mn by (simp add: probed_append) (simp add: probed_def)
  then show ?case using run by blast
qed

lemma ceil_blocks:
  "(s + 10485759) div 10485760 = (if 10485760 dvd s then s div 10485760 else s div 10485760 + 1)"
  for s :: nat
proof -
  obtain q r where s: "s = q * 10485760 + r" and r: "r < 10485760"
    using mod_less_divisor[of 10485760 s] div_mult_mod_eq[of s 10485760] by (metis zero_less_numeral)
  have d: "s div 10485760 = q" unfolding s using r by simp
  have dv: "10485760 dvd s \<longleftrightarrow> r = 0" unfolding s using r
    by (metis add.commute dvd_add_right_iff dvd_triv_right dvd_imp_le not_less dvd_0_right gr0I)
  show ?thesis
  proof (cases "r = 0")
    case True
    then have "s + 10485759 = q * 10485760 + 10485759" using s by simp
    then have "(s + 10485759) div 10485760 = q" by simp
    then show ?thesis using d dv True by simp
  next
    case False
    then obtain r' where r': "r = Suc r'" by (cases r) auto
    have "s + 10485759 = (q + 1) * 10485760 + r'" using s r' by simp
    moreover have "r' < 10485760" using r r' by simp
    ultimately have "(s + 10485759) div 10485760 = q + 1" by simp
    then show ?thesis using d dv False by simp
  qed
qed

text \<open>
  \<^bold>\<open>C8\<close>, as stated: with a total space that 10 MiB does not divide, the last
  partial unit is not probed. On a fault-free file of 15 MiB the probe pass of maxspace
  writes and reads at offset 0 and at offset 10 MiB, two blocks, while
  \<open>15 MiB div 10 MiB = 1\<close>.
\<close>

theorem VerifyTheFile_probes_partial_tail_counterexample:
  "VerifyTheFile 3 (honest_device 15728640 512) zero_buffer drive_E 512 False False
     = Some (True, [Seek 0, Write 0, SeekBack 0, Read 0,
                    Seek 10485760, Write 10485760, SeekBack 10485760, Read 10485760,
                    ms_OutputSize ''is'' 15728640])
   \<and> unat (15728640 :: int64_t) div unat verifySize = 1"
proof -
  have pass: "VerifyTheFile_body (honest_device 15728640 512) zero_buffer 512 False i count
      = (True, [Seek i, Write i, SeekBack i, Read i])" for i count
    using VerifyTheFile_body_pass[OF honest_probe_passes, of False 512 15728640 zero_buffer i count]
    by simp
  have g: "GetFileSizeEx (honest_device 15728640 512) = Some 15728640"
    "malloc_ok (honest_device 15728640 512)"
    by (simp_all add: honest_device_def)
  have loop: "VerifyTheFile_loop (Suc (Suc (Suc 0))) (honest_device 15728640 512) zero_buffer 512 False
        15728640 0 0
     = Some (True, [Seek 0, Write 0, SeekBack 0, Read 0,
                    Seek 10485760, Write 10485760, SeekBack 10485760, Read 10485760,
                    ms_OutputSize ''is'' 15728640])"
    by (simp add: pass sizes_num)
  have three: "(3 :: nat) = Suc (Suc (Suc 0))" by simp
  have "VerifyTheFile 3 (honest_device 15728640 512) zero_buffer drive_E 512 False False
     = VerifyTheFile_loop (Suc (Suc (Suc 0))) (honest_device 15728640 512) zero_buffer 512 False
        15728640 0 0"
    unfolding three by (simp add: VerifyTheFile_def g Let_def del: VerifyTheFile_loop.simps)
  then show ?thesis using loop by (simp add: sizes_num)
qed

text \<open>
  \<^bold>\<open>C8\<close>, amended. On a fault-free volume spacechk creates
  \<open>totalSpace div fileIOSize\<close> files: a partial last segment is not created. On a
  fault-free file maxspace probes every offset \<open>k * verifySize\<close> below the file
  size: \<open>fileSize div verifySize\<close> blocks when 10 MiB divides the size, and one
  more, at the start of the partial tail, when it does not. (The file size is a
  non-negative 64-bit offset with room for one more stride, and the sector holds the four
  markers unless reads are disabled.)
\<close>

theorem units_created_and_probed:
  fixes totalSpace :: uint64_t and fileSize :: int64_t
  shows "fst (CreateFiles (honest_disk fs) garbage heap pathName bytesPerSector totalSpace)
    \<and> length (created (snd (snd (CreateFiles (honest_disk fs) garbage heap pathName bytesPerSector totalSpace))))
        = unat totalSpace div unat fileIOSize
    \<and> (0 \<le> sint fileSize \<and> sint fileSize + 10485760 \<le> 9223372036854775807
        \<and> (noReads \<or> 32 \<le> unat bytesPerSector)
        \<and> nat (sint fileSize) div unat verifySize + 1 < fuel \<longrightarrow>
          (\<exists>evs. VerifyTheFile fuel (honest_device fileSize bytesPerSector) heap pathName bytesPerSector
                    noReads cached = Some (True, evs)
             \<and> length (probed evs)
                 = (if unat verifySize dvd nat (sint fileSize)
                    then nat (sint fileSize) div unat verifySize
                    else nat (sint fileSize) div unat verifySize + 1)))"
proof (intro conjI impI)
  show "fst (CreateFiles (honest_disk fs) garbage heap pathName bytesPerSector totalSpace)"
    and "length (created (snd (snd (CreateFiles (honest_disk fs) garbage heap pathName bytesPerSector totalSpace))))
        = unat totalSpace div unat fileIOSize"
    using CreateFiles_honest_count[of fs garbage heap pathName bytesPerSector totalSpace] by simp_all
next
  assume h: "0 \<le> sint fileSize \<and> sint fileSize + 10485760 \<le> 9223372036854775807
        \<and> (noReads \<or> 32 \<le> unat bytesPerSector)
        \<and> nat (sint fileSize) div unat verifySize + 1 < fuel"
  let ?s = "nat (sint fileSize)"
  let ?n = "(?s + 10485759) div 10485760"
  have v: "unat verifySize = 10485760" by (simp add: sizes_num)
  have nonneg: "0 \<le> sint fileSize" and room: "sint fileSize \<le> 9223372036844290047"
    and sector: "noReads \<or> 32 \<le> unat bytesPerSector"
    using h by simp_all
  have "?n \<le> ?s div 10485760 + 1" by (simp add: ceil_blocks)
  then have fuel: "?n - 0 < fuel" using h unfolding v by linarith
  from VerifyTheFile_loop_honest[OF nonneg room sector le0 fuel, of heap]
  obtain evs where
    "VerifyTheFile_loop fuel (honest_device fileSize bytesPerSector) heap bytesPerSector noReads fileSize 0 0
       = Some (True, evs)"
    and len: "length (probed evs) = ?n" by auto
  then have "VerifyTheFile fuel (honest_device fileSize bytesPerSector) heap pathName bytesPerSector
                    noReads cached = Some (True, evs)"
    by (simp add: VerifyTheFile_def honest_device_def Let_def)
  moreover have "length (probed evs) = (if unat verifySize dvd ?s then ?s div unat verifySize
                    else ?s div unat verifySize + 1)"
    unfolding v len by (rule ceil_blocks)
  ultimately show "\<exists>evs. VerifyTheFile fuel (honest_device fileSize bytesPerSector) heap pathName bytesPerSector
                    noReads cached = Some (True, evs)
             \<and> length (probed evs)
                 = (if unat verifySize dvd nat (sint fileSize)
                    then nat (sint fileSize) div unat verifySize
                    else nat (sint fileSize) div unat verifySize + 1)"
    by blast
qed

theorem units_created_and_probed_witness:
  "length (created (snd (snd (CreateFiles (honest_disk []) 0 zero_buffer drive_E 512 26214400)))) = 2
   \<and> 0 \<le> sint (26214400 :: int64_t) \<and> sint (26214400 :: int64_t) + 10485760 \<le> 9223372036854775807
   \<and> 32 \<le> unat (512 :: DWORD)
   \<and> nat (sint (26214400 :: int64_t)) div unat verifySize + 1 < 10
   \<and> (\<exists>evs. VerifyTheFile 10 (honest_device 26214400 512) zero_buffer drive_E 512 False False
                = Some (True, evs)
          \<and> length (probed evs) = 3)"
  using units_created_and_probed
    [where fs = "[]" and garbage = 0 and heap = zero_buffer and pathName = drive_E
       and bytesPerSector = 512 and totalSpace = 26214400 and fileSize = 26214400
       and noReads = False and fuel = 10 and cached = False]
  by (simp add: sizes_num)

end
